theory Spec2Isabelle
  imports Complex_Main "HOL-Library.AList" "HOL-Library.List_Lexorder"
begin

section \<open>Python strings and values\<close>

text \<open>
  A Python \<open>str\<close> is a sequence of Unicode code points. It is modelled as a list of
  integers, one per code point, so that \<open>length\<close>, slicing and the substring
  test count what Python counts. ASCII literals are written with \<open>asc\<close>; other literals
  of the source are written as their code points (hexadecimal).
\<close>

type_synonym str = "int list"

definition asc :: "string \<Rightarrow> str" where
  "asc s = map of_char s"

text \<open>\<open>hay.startswith(needle)\<close> and \<open>needle in hay\<close>.\<close>

fun startswith :: "str \<Rightarrow> str \<Rightarrow> bool" where
  "startswith [] hay = True"
| "startswith (n # ns) [] = False"
| "startswith (n # ns) (h # hs) = (n = h \<and> startswith ns hs)"

fun is_in :: "str \<Rightarrow> str \<Rightarrow> bool" where
  "is_in needle [] = (needle = [])"
| "is_in needle (h # hs) = (startswith needle (h # hs) \<or> is_in needle hs)"

text \<open>\<open>sep.join(parts)\<close>.\<close>

fun join :: "str \<Rightarrow> str list \<Rightarrow> str" where
  "join sep [] = []"
| "join sep [p] = p"
| "join sep (p # q # ps) = p @ sep @ join sep (q # ps)"

text \<open>
  The values that \<open>json.load\<close> produces and \<open>json.dump\<close> accepts. A \<open>dict\<close> is an
  association list in insertion order (Python dictionaries iterate in insertion order);
  \<open>d[k] = v\<close> is \<open>AList.update\<close> (an existing key keeps its place, a new key goes to the
  end), \<open>del d[k]\<close> is \<open>AList.delete\<close>, \<open>d.get(k)\<close> is \<open>map_of\<close>. JSON numbers are
  integers here; floating-point numbers are outside this model.
\<close>

datatype json =
    JNull
  | JBool bool
  | JInt int
  | JStr str
  | JArr "json list"
  | JObj "(str \<times> json) list"

text \<open>Truth value of a Python object in a condition.\<close>

fun truthy :: "json \<Rightarrow> bool" where
  "truthy JNull = False"
| "truthy (JBool b) = b"
| "truthy (JInt i) = (i \<noteq> 0)"
| "truthy (JStr s) = (s \<noteq> [])"
| "truthy (JArr xs) = (xs \<noteq> [])"
| "truthy (JObj kvs) = (kvs \<noteq> [])"

text \<open>
  What the parser takes from the Python runtime: \<open>str.lower\<close>, the white space that
  \<open>str.strip\<close> removes, the decimal digits that the regular expression class \<open>\d\<close> and
  \<open>int\<close> accept (with their values), and the limit on the number of digits that \<open>int\<close>
  converts (\<open>sys.get_int_max_str_digits()\<close>: 4300 by default, 0 for no limit). They
  belong to the interpreter, not to the repository, and are parameters of the model.
\<close>

record unicode_db =
  str_lower :: "str \<Rightarrow> str"
  is_space :: "int \<Rightarrow> bool"
  digit_value :: "int \<Rightarrow> nat option"
  int_max_str_digits :: nat

definition strip :: "unicode_db \<Rightarrow> str \<Rightarrow> str" where
  "strip db s = rev (dropWhile (is_space db) (rev (dropWhile (is_space db) s)))"

definition is_digit :: "unicode_db \<Rightarrow> int \<Rightarrow> bool" where
  "is_digit db c = (digit_value db c \<noteq> None)"

text \<open>
  \<open>int(s)\<close> on a string of decimal digits (the only strings the parser passes to it). A
  string with more characters than the limit raises \<open>ValueError\<close>; leading zeros count.
\<close>

datatype py_error = ValueError

definition int_raises :: "unicode_db \<Rightarrow> str \<Rightarrow> bool" where
  "int_raises db s = (0 < int_max_str_digits db \<and> int_max_str_digits db < length s)"

definition py_int :: "unicode_db \<Rightarrow> str \<Rightarrow> py_error + int" where
  "py_int db s =
     (if int_raises db s then Inl ValueError
      else Inr (foldl (\<lambda>acc c. 10 * acc
                         + (case digit_value db c of Some d \<Rightarrow> int d | None \<Rightarrow> 0)) 0 s))"

section \<open>QueryParser (voice\_query\_system.py)\<close>

subsection \<open>Keyword tables of \<open>QueryParser.__init__\<close>\<close>

definition sport_keywords :: "(str \<times> str list) list" where
  "sport_keywords =
   [(asc ''f1'',
      [asc ''f1'',
       asc ''F1'',
       [0x4E00, 0x7EA7, 0x65B9, 0x7A0B, 0x5F0F],
       [0x8D5B, 0x8F66],
       [0x8F66, 0x624B],
       [0x8F66, 0x961F],
       [0x79EF, 0x5206, 0x699C],
       [0x6BD4, 0x8D5B, 0x7ED3, 0x679C],
       [0x6392, 0x4F4D, 0x8D5B]]),
    (asc ''football'',
      [[0x8DB3, 0x7403],
       [0x82F1, 0x8D85],
       [0x897F, 0x7532],
       [0x5FB7, 0x7532],
       [0x610F, 0x7532],
       [0x6CD5, 0x7532],
       [0x8054, 0x8D5B],
       [0x79EF, 0x5206, 0x699C],
       [0x6BD4, 0x8D5B],
       [0x7403, 0x961F],
       [0x5C04, 0x624B, 0x699C]]),
    (asc ''nba'',
      [asc ''nba'',
       asc ''NBA'',
       [0x7BEE, 0x7403],
       [0x7403, 0x961F],
       [0x7403, 0x5458],
       [0x8D5B, 0x7A0B],
       [0x6E56, 0x4EBA],
       [0x52C7, 0x58EB],
       [0x51EF, 0x5C14, 0x7279, 0x4EBA],
       [0x5E93, 0x91CC],
       [0x8A79, 0x59C6, 0x65AF],
       [0x675C, 0x5170, 0x7279]])]"

definition query_types :: "(str \<times> str list) list" where
  "query_types =
   [(asc ''schedule'',
      [[0x8D5B, 0x7A0B],
       [0x6BD4, 0x8D5B, 0x5B89, 0x6392],
       [0x65E5, 0x7A0B],
       [0x65F6, 0x95F4, 0x8868]]),
    (asc ''standings'',
      [[0x79EF, 0x5206, 0x699C],
       [0x6392, 0x540D],
       [0x6392, 0x884C, 0x699C],
       [0x699C, 0x5355]]),
    (asc ''results'',
      [[0x7ED3, 0x679C],
       [0x6BD4, 0x5206],
       [0x6210, 0x7EE9]]),
    (asc ''teams'',
      [[0x7403, 0x961F],
       [0x961F, 0x4F0D],
       [0x8F66, 0x961F]]),
    (asc ''players'',
      [[0x7403, 0x5458],
       [0x8F66, 0x624B],
       [0x9009, 0x624B],
       [0x540D, 0x5355],
       [0x9635, 0x5BB9]]),
    (asc ''today'',
      [[0x4ECA, 0x5929],
       [0x4ECA, 0x65E5],
       [0x5F53, 0x5929]]),
    (asc ''live'',
      [[0x5B9E, 0x65F6],
       [0x76F4, 0x64AD],
       [0x73B0, 0x573A]]),
    (asc ''top_scorers'',
      [[0x5C04, 0x624B, 0x699C],
       [0x5C04, 0x624B],
       [0x8FDB, 0x7403, 0x699C],
       [0x5F97, 0x5206, 0x699C]]),
    (asc ''player_stats'',
      [[0x6570, 0x636E],
       [0x7EDF, 0x8BA1],
       [0x8868, 0x73B0]])]"

definition player_names :: "(str \<times> (str \<times> json) list) list" where
  "player_names =
   [(asc ''nba'',
      [([0x5E93, 0x91CC], JStr (asc ''Stephen Curry'')),
       ([0x65AF, 0x8482, 0x82AC, 0x5E93, 0x91CC], JStr (asc ''Stephen Curry'')),
       ([0x8A79, 0x59C6, 0x65AF], JStr (asc ''LeBron James'')),
       ([0x52D2, 0x5E03, 0x6717, 0x8A79, 0x59C6, 0x65AF], JStr (asc ''LeBron James'')),
       ([0x675C, 0x5170, 0x7279], JStr (asc ''Kevin Durant'')),
       ([0x51EF, 0x6587, 0x675C, 0x5170, 0x7279], JStr (asc ''Kevin Durant'')),
       ([0x5B57, 0x6BCD, 0x54E5], JStr (asc ''Giannis Antetokounmpo'')),
       ([0x5B89, 0x7279, 0x6258, 0x6606, 0x535A], JStr (asc ''Giannis Antetokounmpo'')),
       ([0x4E1C, 0x5951, 0x5947], JStr (asc ''Luka Doncic'')),
       ([0x5362, 0x5361, 0x4E1C, 0x5951, 0x5947], JStr (asc ''Luka Doncic'')),
       ([0x5854, 0x56FE, 0x59C6], JStr (asc ''Jayson Tatum'')),
       ([0x6770, 0x68EE, 0x5854, 0x56FE, 0x59C6], JStr (asc ''Jayson Tatum'')),
       ([0x7EA6, 0x57FA, 0x5947], JStr (asc ''Nikola Jokic'')),
       ([0x5C3C, 0x53E4, 0x62C9, 0x7EA6, 0x57FA, 0x5947], JStr (asc ''Nikola Jokic'')),
       ([0x6069, 0x6BD4, 0x5FB7], JStr (asc ''Joel Embiid'')),
       ([0x4E54, 0x5C14, 0x6069, 0x6BD4, 0x5FB7], JStr (asc ''Joel Embiid''))])]"

definition team_names :: "(str \<times> (str \<times> json) list) list" where
  "team_names =
   [(asc ''nba'',
      [([0x6E56, 0x4EBA], JStr (asc ''Lakers'')),
       ([0x6E56, 0x4EBA, 0x961F], JStr (asc ''Lakers'')),
       ([0x6D1B, 0x6749, 0x77F6, 0x6E56, 0x4EBA], JStr (asc ''Lakers'')),
       ([0x52C7, 0x58EB], JStr (asc ''Warriors'')),
       ([0x52C7, 0x58EB, 0x961F], JStr (asc ''Warriors'')),
       ([0x91D1, 0x5DDE, 0x52C7, 0x58EB], JStr (asc ''Warriors'')),
       ([0x51EF, 0x5C14, 0x7279, 0x4EBA], JStr (asc ''Celtics'')),
       ([0x51EF, 0x5C14, 0x7279, 0x4EBA, 0x961F], JStr (asc ''Celtics'')),
       ([0x6CE2, 0x58EB, 0x987F, 0x51EF, 0x5C14, 0x7279, 0x4EBA], JStr (asc ''Celtics'')),
       ([0x516C, 0x725B], JStr (asc ''Bulls'')),
       ([0x516C, 0x725B, 0x961F], JStr (asc ''Bulls'')),
       ([0x829D, 0x52A0, 0x54E5, 0x516C, 0x725B], JStr (asc ''Bulls'')),
       ([0x70ED, 0x706B], JStr (asc ''Heat'')),
       ([0x70ED, 0x706B, 0x961F], JStr (asc ''Heat'')),
       ([0x8FC8, 0x963F, 0x5BC6, 0x70ED, 0x706B], JStr (asc ''Heat'')),
       ([0x9A6C, 0x523A], JStr (asc ''Spurs'')),
       ([0x9A6C, 0x523A, 0x961F], JStr (asc ''Spurs'')),
       ([0x5723, 0x5B89, 0x4E1C, 0x5C3C, 0x5965, 0x9A6C, 0x523A], JStr (asc ''Spurs'')),
       ([0x706B, 0x7BAD], JStr (asc ''Rockets'')),
       ([0x706B, 0x7BAD, 0x961F], JStr (asc ''Rockets'')),
       ([0x4F11, 0x65AF, 0x987F, 0x706B, 0x7BAD], JStr (asc ''Rockets'')),
       ([0x96F7, 0x9706], JStr (asc ''Thunder'')),
       ([0x96F7, 0x9706, 0x961F], JStr (asc ''Thunder'')),
       ([0x4FC4, 0x514B, 0x62C9, 0x8377, 0x9A6C, 0x96F7, 0x9706], JStr (asc ''Thunder'')),
       ([0x5FEB, 0x8239], JStr (asc ''Clippers'')),
       ([0x5FEB, 0x8239, 0x961F], JStr (asc ''Clippers'')),
       ([0x6D1B, 0x6749, 0x77F6, 0x5FEB, 0x8239], JStr (asc ''Clippers'')),
       ([0x5C3C, 0x514B, 0x65AF], JStr (asc ''Knicks'')),
       ([0x5C3C, 0x514B, 0x65AF, 0x961F], JStr (asc ''Knicks'')),
       ([0x7EBD, 0x7EA6, 0x5C3C, 0x514B, 0x65AF], JStr (asc ''Knicks'')),
       ([0x7BEE, 0x7F51], JStr (asc ''Nets'')),
       ([0x7BEE, 0x7F51, 0x961F], JStr (asc ''Nets'')),
       ([0x5E03, 0x9C81, 0x514B, 0x6797, 0x7BEE, 0x7F51], JStr (asc ''Nets'')),
       ([0x37, 0x36, 0x4EBA], JStr (asc ''76ers'')),
       ([0x37, 0x36, 0x4EBA, 0x961F], JStr (asc ''76ers'')),
       ([0x8D39, 0x57CE, 0x37, 0x36, 0x4EBA], JStr (asc ''76ers'')),
       ([0x96C4, 0x9E7F], JStr (asc ''Bucks'')),
       ([0x96C4, 0x9E7F, 0x961F], JStr (asc ''Bucks'')),
       ([0x5BC6, 0x5C14, 0x6C83, 0x57FA, 0x96C4, 0x9E7F], JStr (asc ''Bucks''))]),
    (asc ''football'',
      [([0x82F1, 0x8D85], JInt 2021),
       ([0x897F, 0x7532], JInt 2014),
       ([0x5FB7, 0x7532], JInt 2002),
       ([0x610F, 0x7532], JInt 2019),
       ([0x6CD5, 0x7532], JInt 2015)])]"

subsection \<open>Literals used by \<open>parse_query\<close> and \<open>_extract_parameters\<close>\<close>

text \<open>
  \<open>stat_words\<close> are the six statistics words of the player rule (score, data,
  statistics, performance, average, per game). The other words are the substrings that
  the override rules test: scorer and goal (football), constructors and drivers (F1),
  standings; \<open>c_ordinal\<close> and \<open>c_round\<close> are the two signs of the round pattern.
\<close>

definition stat_words :: "str list" where
  "stat_words =
     [[0x5F97, 0x5206], [0x6570, 0x636E], [0x7EDF, 0x8BA1],
      [0x8868, 0x73B0], [0x5E73, 0x5747], [0x573A, 0x5747]]"

definition w_scorer :: str where "w_scorer = [0x5C04, 0x624B]"
definition w_goal :: str where "w_goal = [0x8FDB, 0x7403]"
definition w_constructors :: str where "w_constructors = [0x8F66, 0x961F]"
definition w_drivers :: str where "w_drivers = [0x8F66, 0x624B]"
definition w_standings :: str where "w_standings = [0x79EF, 0x5206, 0x699C]"
definition c_ordinal :: int where "c_ordinal = 0x7B2C"
definition c_round :: int where "c_round = 0x8F6E"

subsection \<open>Scoring\<close>

text \<open>\<open>sum(1 for keyword in keywords if f(keyword) in text)\<close>.\<close>

definition keyword_score :: "(str \<Rightarrow> str) \<Rightarrow> str list \<Rightarrow> str \<Rightarrow> nat" where
  "keyword_score f keywords text = length (filter (\<lambda>keyword. is_in (f keyword) text) keywords)"

text \<open>The dictionary of the positive scores, in the order of the table.\<close>

definition scores :: "(str \<Rightarrow> str) \<Rightarrow> (str \<times> str list) list \<Rightarrow> str \<Rightarrow> (str \<times> nat) list" where
  "scores f table text =
     filter (\<lambda>(name, score). score > 0)
       (map (\<lambda>(name, keywords). (name, keyword_score f keywords text)) table)"

text \<open>
  \<open>max(d, key=d.get)\<close>: the keys are visited in order and the running maximum is replaced
  only by a strictly larger value.
\<close>

fun max_from :: "'a \<times> nat \<Rightarrow> ('a \<times> nat) list \<Rightarrow> 'a" where
  "max_from (best, b) [] = best"
| "max_from (best, b) ((k, v) # rest) =
     (if v > b then max_from (k, v) rest else max_from (best, b) rest)"

definition py_max_key :: "('a \<times> nat) list \<Rightarrow> 'a option" where
  "py_max_key d = (case d of [] \<Rightarrow> None | kv # rest \<Rightarrow> Some (max_from kv rest))"

subsection \<open>The result dictionary and the steps of \<open>parse_query\<close>\<close>

text \<open>
  The confidence is a Python float in the source; here the increments \<open>0.3\<close>, \<open>0.4\<close> and
  the raises to \<open>0.7\<close>, \<open>0.8\<close>, \<open>0.9\<close> are exact rationals.
\<close>

record query_info =
  res_sport :: "str option"
  res_query_type :: "str option"
  res_parameters :: "(str \<times> json) list"
  res_confidence :: rat
  res_original_text :: str

definition initial_result :: "str \<Rightarrow> query_info" where
  "initial_result text =
     \<lparr>res_sport = None, res_query_type = None, res_parameters = [], res_confidence = 0,
       res_original_text = text\<rparr>"

definition detect_sport :: "unicode_db \<Rightarrow> str \<Rightarrow> query_info \<Rightarrow> query_info" where
  "detect_sport db text r =
     (let sport_scores = scores (str_lower db) sport_keywords text
      in if sport_scores \<noteq> []
         then r\<lparr>res_sport := py_max_key sport_scores, res_confidence := res_confidence r + 3 / 10\<rparr>
         else r)"

definition detect_query_type :: "str \<Rightarrow> query_info \<Rightarrow> query_info" where
  "detect_query_type text r =
     (let query_scores = scores (\<lambda>keyword. keyword) query_types text
      in if query_scores \<noteq> []
         then r\<lparr>res_query_type := py_max_key query_scores, res_confidence := res_confidence r + 3 / 10\<rparr>
         else r)"

text \<open>The first alias of a table, in table order, that occurs in the text.\<close>

definition first_alias :: "(str \<times> json) list \<Rightarrow> str \<Rightarrow> (str \<times> json) option" where
  "first_alias aliases text = find (\<lambda>(alias, canonical). is_in alias text) aliases"

definition player_rule :: "str \<Rightarrow> query_info \<Rightarrow> query_info" where
  "player_rule text r =
     (case res_sport r of
        None \<Rightarrow> r
      | Some s \<Rightarrow>
          (case map_of player_names s of
             None \<Rightarrow> r
           | Some aliases \<Rightarrow>
               (case first_alias aliases text of
                  None \<Rightarrow> r
                | Some hit \<Rightarrow>
                    r\<lparr>res_query_type :=
                        Some (if list_ex (\<lambda>keyword. is_in keyword text) stat_words
                              then asc ''player_stats'' else asc ''players''),
                      res_confidence := max (res_confidence r) (8 / 10)\<rparr>)))"

definition football_rule :: "str \<Rightarrow> query_info \<Rightarrow> query_info" where
  "football_rule text r =
     (if res_sport r = Some (asc ''football'') \<and> (is_in w_scorer text \<or> is_in w_goal text)
      then r\<lparr>res_query_type := Some (asc ''top_scorers''), res_confidence := max (res_confidence r) (7 / 10)\<rparr>
      else r)"

definition f1_teams_rule :: "str \<Rightarrow> query_info \<Rightarrow> query_info" where
  "f1_teams_rule text r =
     (if res_sport r = Some (asc ''f1'') \<and> is_in w_constructors text \<and> is_in w_standings text
      then r\<lparr>res_query_type := Some (asc ''teams''), res_confidence := max (res_confidence r) (9 / 10)\<rparr>
      else r)"

definition f1_drivers_rule :: "str \<Rightarrow> query_info \<Rightarrow> query_info" where
  "f1_drivers_rule text r =
     (if res_sport r = Some (asc ''f1'') \<and> is_in w_drivers text \<and> is_in w_standings text
      then r\<lparr>res_query_type := Some (asc ''standings''), res_confidence := max (res_confidence r) (9 / 10)\<rparr>
      else r)"

subsection \<open>\<open>_extract_parameters\<close>\<close>

text \<open>
  \<open>re.search(r'(\d{4})\<dots>?', text)\<close> (four digits, then an optional year sign): group 1 of
  the leftmost match, that is the first window of four consecutive digits.
\<close>

fun year_match :: "unicode_db \<Rightarrow> str \<Rightarrow> str option" where
  "year_match db (a # b # c # d # rest) =
     (if is_digit db a \<and> is_digit db b \<and> is_digit db c \<and> is_digit db d
      then Some [a, b, c, d]
      else year_match db (b # c # d # rest))"
| "year_match db text = None"

text \<open>
  \<open>re.search(r'O?(\d+)R', text)\<close> where \<open>O\<close> is the ordinal sign \<open>c_ordinal\<close> and \<open>R\<close> the
  round sign \<open>c_round\<close>. \<open>digits_then_round\<close> matches \<open>(\d+)R\<close> at the start of a text:
  the digits are taken greedily and given back one by one until \<open>R\<close> follows.
  \<open>round_at\<close> matches the whole pattern at the start of a text, the optional sign being
  tried first, and \<open>round_match\<close> returns group 1 of the leftmost match.
\<close>

fun digits_then_round :: "unicode_db \<Rightarrow> str \<Rightarrow> str option" where
  "digits_then_round db [] = None"
| "digits_then_round db (c # cs) =
     (if is_digit db c
      then (case digits_then_round db cs of
              Some ds \<Rightarrow> Some (c # ds)
            | None \<Rightarrow> (if startswith [c_round] cs then Some [c] else None))
      else None)"

definition round_at :: "unicode_db \<Rightarrow> str \<Rightarrow> str option" where
  "round_at db text =
     (case text of
        [] \<Rightarrow> None
      | c # cs \<Rightarrow>
          (if c = c_ordinal
           then (case digits_then_round db cs of
                   Some ds \<Rightarrow> Some ds
                 | None \<Rightarrow> digits_then_round db text)
           else digits_then_round db text))"

fun round_match :: "unicode_db \<Rightarrow> str \<Rightarrow> str option" where
  "round_match db [] = None"
| "round_match db (c # cs) =
     (case round_at db (c # cs) of
        Some ds \<Rightarrow> Some ds
      | None \<Rightarrow> round_match db cs)"

text \<open>
  The two conversions with \<open>int\<close> can raise; the exception is not caught in
  \<open>_extract_parameters\<close> nor in \<open>parse_query\<close>, so both return it (\<open>Inl\<close>).
\<close>

definition extract_year ::
  "unicode_db \<Rightarrow> str \<Rightarrow> (str \<times> json) list \<Rightarrow> py_error + (str \<times> json) list" where
  "extract_year db text params =
     (case year_match db text of
        Some ds \<Rightarrow>
          (case py_int db ds of
             Inl e \<Rightarrow> Inl e
           | Inr year \<Rightarrow> Inr (AList.update (asc ''year'') (JInt year) params))
      | None \<Rightarrow> Inr params)"

definition extract_player :: "str \<Rightarrow> str option \<Rightarrow> (str \<times> json) list \<Rightarrow> (str \<times> json) list" where
  "extract_player text sp params =
     (case sp of
        None \<Rightarrow> params
      | Some s \<Rightarrow>
          (case map_of player_names s of
             None \<Rightarrow> params
           | Some aliases \<Rightarrow>
               (case first_alias aliases text of
                  None \<Rightarrow> params
                | Some (player_cn, player_en) \<Rightarrow> AList.update (asc ''player'') player_en params)))"

definition extract_team :: "str \<Rightarrow> str option \<Rightarrow> (str \<times> json) list \<Rightarrow> (str \<times> json) list" where
  "extract_team text sp params =
     (case sp of
        None \<Rightarrow> params
      | Some s \<Rightarrow>
          (case map_of team_names s of
             None \<Rightarrow> params
           | Some aliases \<Rightarrow>
               (case first_alias aliases text of
                  None \<Rightarrow> params
                | Some (team_cn, team_en) \<Rightarrow>
                    (if s = asc ''football'' \<and> (case team_en of JInt i \<Rightarrow> True | _ \<Rightarrow> False)
                     then AList.update (asc ''league_id'') team_en params
                     else AList.update (asc ''team'') team_en params))))"

definition extract_round ::
  "unicode_db \<Rightarrow> str \<Rightarrow> (str \<times> json) list \<Rightarrow> py_error + (str \<times> json) list" where
  "extract_round db text params =
     (case round_match db text of
        Some ds \<Rightarrow>
          (case py_int db ds of
             Inl e \<Rightarrow> Inl e
           | Inr n \<Rightarrow> Inr (AList.update (asc ''round'') (JInt n) params))
      | None \<Rightarrow> Inr params)"

definition extract_parameters ::
  "unicode_db \<Rightarrow> str \<Rightarrow> str option \<Rightarrow> py_error + (str \<times> json) list" where
  "extract_parameters db text sp =
     (case extract_year db text [] of
        Inl e \<Rightarrow> Inl e
      | Inr params \<Rightarrow> extract_round db text (extract_team text sp (extract_player text sp params)))"

definition add_parameters :: "unicode_db \<Rightarrow> str \<Rightarrow> query_info \<Rightarrow> py_error + query_info" where
  "add_parameters db text r =
     (case extract_parameters db text (res_sport r) of
        Inl e \<Rightarrow> Inl e
      | Inr params \<Rightarrow>
          Inr (if params \<noteq> []
               then r\<lparr>res_parameters := params, res_confidence := res_confidence r + 4 / 10\<rparr>
               else r\<lparr>res_parameters := params\<rparr>))"

subsection \<open>\<open>parse_query\<close>\<close>

definition normalized :: "unicode_db \<Rightarrow> str \<Rightarrow> str" where
  "normalized db raw = strip db (str_lower db raw)"

text \<open>The result dictionary after the two scoring steps, before any override.\<close>

definition scored :: "unicode_db \<Rightarrow> str \<Rightarrow> query_info" where
  "scored db text = detect_query_type text (detect_sport db text (initial_result text))"

text \<open>The result dictionary just before the last override (drivers' standings).\<close>

definition before_drivers_rule :: "unicode_db \<Rightarrow> str \<Rightarrow> query_info" where
  "before_drivers_rule db text = f1_teams_rule text (football_rule text (player_rule text (scored db text)))"

text \<open>\<open>parse_query\<close> returns the result dictionary (\<open>Inr\<close>) or raises (\<open>Inl\<close>).\<close>

definition parse_query :: "unicode_db \<Rightarrow> str \<Rightarrow> py_error + query_info" where
  "parse_query db raw =
     (let text = normalized db raw
      in add_parameters db text (f1_drivers_rule text (before_drivers_rule db text)))"

subsection \<open>A character database for the examples\<close>

text \<open>
  \<open>ascii_db\<close> lower-cases the letters A to Z, strips the white space of \<open>str.isspace\<close>,
  knows the digits 0 to 9 and has the default limit of 4300 digits. On texts made of ASCII characters and CJK ideographs (which have
  no case and are neither digits nor white space) it computes what Python computes; the
  examples below use such texts only.
\<close>

definition ascii_lower :: "int \<Rightarrow> int" where
  "ascii_lower c = (if 0x41 \<le> c \<and> c \<le> 0x5A then c + 0x20 else c)"

definition py_isspace :: "int \<Rightarrow> bool" where
  "py_isspace c =
     ((0x09 \<le> c \<and> c \<le> 0x0D) \<or> (0x1C \<le> c \<and> c \<le> 0x20) \<or> c = 0x85 \<or> c = 0xA0
      \<or> c = 0x1680 \<or> (0x2000 \<le> c \<and> c \<le> 0x200A) \<or> c = 0x2028 \<or> c = 0x2029
      \<or> c = 0x202F \<or> c = 0x205F \<or> c = 0x3000)"

definition ascii_digit :: "int \<Rightarrow> nat option" where
  "ascii_digit c = (if 0x30 \<le> c \<and> c \<le> 0x39 then Some (nat (c - 0x30)) else None)"

definition ascii_db :: unicode_db where
  "ascii_db =
     \<lparr>str_lower = map ascii_lower, is_space = py_isspace, digit_value = ascii_digit,
      int_max_str_digits = 4300\<rparr>"


section \<open>QueryCache (query\_cache.py)\<close>

subsection \<open>What the cache takes from the Python runtime\<close>

text \<open>
  \<open>datetime.fromisoformat\<close> is a function of the interpreter and a parameter of the model:
  it returns \<open>None\<close> where Python raises \<open>ValueError\<close>. A naive \<open>datetime\<close> is a number of
  microseconds on the local time line. Comparing an aware value with \<open>datetime.now()\<close>,
  which is naive, raises \<open>TypeError\<close>.
\<close>

datatype pydatetime = Naive int | Aware int

text \<open>\<open>timedelta(days=n)\<close> in microseconds.\<close>

definition timedelta_days :: "int \<Rightarrow> int" where
  "timedelta_days n = n * 86400 * 1000000"

text \<open>
  \<open>str(v)\<close>, as an f-string applies it, is a parameter \<open>fmt\<close> of the functions that format
  values. \<open>scalar_str\<close> is Python's \<open>str\<close> on \<open>None\<close>, booleans, integers and strings; the
  examples format such values only (the repr of a list or dict is not modelled, and
  \<open>scalar_str\<close> gives the empty string there).
\<close>

function digits_of :: "int \<Rightarrow> str" where
  "digits_of n = (if n < 10 then [0x30 + n] else digits_of (n div 10) @ [0x30 + n mod 10])"
  by pat_completeness auto
termination
  by (relation "measure nat") auto

definition str_of_int :: "int \<Rightarrow> str" where
  "str_of_int i = (if i < 0 then 0x2D # digits_of (- i) else digits_of i)"

fun scalar_str :: "json \<Rightarrow> str" where
  "scalar_str JNull = asc ''None''"
| "scalar_str (JBool b) = (if b then asc ''True'' else asc ''False'')"
| "scalar_str (JInt i) = str_of_int i"
| "scalar_str (JStr s) = s"
| "scalar_str (JArr xs) = []"
| "scalar_str (JObj kvs) = []"

text \<open>\<open>d.get(k)\<close> with the default \<open>None\<close>.\<close>

definition dict_get :: "(str \<times> json) list \<Rightarrow> str \<Rightarrow> json" where
  "dict_get d k = (case map_of d k of Some v \<Rightarrow> v | None \<Rightarrow> JNull)"

subsection \<open>The store\<close>

text \<open>
  \<open>self.cache_data\<close> is the document that \<open>json.load\<close> returned, or the default store. The
  operations below take it and return the new one. Every operation of the source runs in
  a \<open>try\<close> block that logs the exception and returns a default; the branches of the
  model that return \<open>None\<close>, \<open>[]\<close> or the unchanged store for a value of the wrong shape
  are those exceptions. Writing the file is not modelled: \<open>_save_cache\<close> swallows its
  failure and nothing but \<open>_load_cache\<close>, whose input is a parameter, reads the file.
\<close>

definition default_store :: "str \<Rightarrow> json" where
  "default_store now_iso =
     JObj [(asc ''f1'', JObj []),
           (asc ''football'', JObj []),
           (asc ''nba'', JObj []),
           (asc ''metadata'',
              JObj [(asc ''last_updated'', JStr now_iso), (asc ''version'', JStr (asc ''1.0''))])]"

text \<open>\<open>_save_cache\<close>: the update of \<open>cache_data['metadata']['last_updated']\<close>.\<close>

definition save_cache :: "str \<Rightarrow> json \<Rightarrow> json" where
  "save_cache now_iso cache_data =
     (case cache_data of
        JObj doc \<Rightarrow>
          (case map_of doc (asc ''metadata'') of
             Some (JObj meta) \<Rightarrow>
               JObj (AList.update (asc ''metadata'')
                       (JObj (AList.update (asc ''last_updated'') (JStr now_iso) meta)) doc)
           | _ \<Rightarrow> cache_data)
      | _ \<Rightarrow> cache_data)"

subsection \<open>\<open>_clean_expired_data\<close> and \<open>_load_cache\<close>\<close>

definition sports :: "str list" where
  "sports = [asc ''f1'', asc ''football'', asc ''nba'']"

text \<open>
  The test of the inner loop: the entry is a dict with a \<open>timestamp\<close> key, and either the
  timestamp is older than the cutoff or reading it raises (not a string, not ISO format,
  or an aware value that cannot be compared with the naive cutoff).
\<close>

definition is_expired :: "(str \<Rightarrow> pydatetime option) \<Rightarrow> int \<Rightarrow> json \<Rightarrow> bool" where
  "is_expired fromisoformat cutoff_time v =
     (case v of
        JObj e \<Rightarrow>
          (case map_of e (asc ''timestamp'') of
             None \<Rightarrow> False
           | Some (JStr s) \<Rightarrow>
               (case fromisoformat s of
                  Some (Naive item_time) \<Rightarrow> item_time < cutoff_time
                | _ \<Rightarrow> True)
           | Some _ \<Rightarrow> True)
      | _ \<Rightarrow> False)"

definition expired_keys :: "(str \<Rightarrow> pydatetime option) \<Rightarrow> int \<Rightarrow> (str \<times> json) list \<Rightarrow> str list" where
  "expired_keys fromisoformat cutoff_time entries =
     map fst (filter (\<lambda>(key, v). is_expired fromisoformat cutoff_time v) entries)"

definition delete_keys :: "str list \<Rightarrow> (str \<times> json) list \<Rightarrow> (str \<times> json) list" where
  "delete_keys keys entries = foldl (\<lambda>d key. AList.delete key d) entries keys"

text \<open>
  The loop over the three sports. A sport whose value is not a dict has no \<open>items\<close>: the
  exception leaves the loop, and the sports after it are not cleaned.
\<close>

fun clean_sports ::
  "(str \<Rightarrow> pydatetime option) \<Rightarrow> int \<Rightarrow> str list \<Rightarrow> (str \<times> json) list \<Rightarrow> (str \<times> json) list" where
  "clean_sports fromisoformat cutoff_time [] doc = doc"
| "clean_sports fromisoformat cutoff_time (sport # rest) doc =
     (case map_of doc sport of
        None \<Rightarrow> clean_sports fromisoformat cutoff_time rest doc
      | Some (JObj entries) \<Rightarrow>
          clean_sports fromisoformat cutoff_time rest
            (AList.update sport
               (JObj (delete_keys (expired_keys fromisoformat cutoff_time entries) entries)) doc)
      | Some _ \<Rightarrow> doc)"

definition clean_expired_data ::
  "(str \<Rightarrow> pydatetime option) \<Rightarrow> int \<Rightarrow> int \<Rightarrow> json \<Rightarrow> json" where
  "clean_expired_data fromisoformat now max_age_days data =
     (let cutoff_time = now - timedelta_days max_age_days
      in case data of
           JObj doc \<Rightarrow> JObj (clean_sports fromisoformat cutoff_time sports doc)
         | _ \<Rightarrow> data)"

text \<open>The cache file: absent, unreadable (\<open>open\<close> or \<open>json.load\<close> raises), or a document.\<close>

datatype cache_file = NoFile | Unreadable | Parsed json

definition load_cache ::
  "(str \<Rightarrow> pydatetime option) \<Rightarrow> int \<Rightarrow> str \<Rightarrow> cache_file \<Rightarrow> json" where
  "load_cache fromisoformat now now_iso file =
     (case file of
        Parsed data \<Rightarrow> clean_expired_data fromisoformat now 7 data
      | _ \<Rightarrow> default_store now_iso)"

subsection \<open>\<open>_generate_cache_key\<close>, \<open>store_query_result\<close>, \<open>get_query_result\<close>\<close>

definition key_params :: "str list" where
  "key_params = [asc ''league_id'', asc ''team'', asc ''year'', asc ''round'']"

definition generate_cache_key :: "(json \<Rightarrow> str) \<Rightarrow> str \<Rightarrow> (str \<times> json) list \<Rightarrow> str" where
  "generate_cache_key fmt query_type parameters =
     join (asc ''_'')
       (foldl (\<lambda>key_parts param.
                 case map_of parameters param of
                   Some v \<Rightarrow> key_parts @ [param @ asc ''_'' @ fmt v]
                 | None \<Rightarrow> key_parts)
          [query_type] key_params)"

definition make_entry ::
  "str \<Rightarrow> (str \<times> json) list \<Rightarrow> (str \<times> json) list \<Rightarrow> str \<Rightarrow> str \<Rightarrow> json" where
  "make_entry query_type parameters result_data original_text now_iso =
     JObj [(asc ''query_type'', JStr query_type),
           (asc ''parameters'', JObj parameters),
           (asc ''result_data'', JObj result_data),
           (asc ''original_text'', JStr original_text),
           (asc ''timestamp'', JStr now_iso),
           (asc ''success'',
              (case map_of result_data (asc ''success'') of Some v \<Rightarrow> v | None \<Rightarrow> JBool False))]"

text \<open>
  \<open>store_query_result\<close> returns the key, or \<open>None\<close> after an exception. \<open>now_iso\<close> is the
  clock reading of the entry, \<open>saved_iso\<close> the later one of \<open>_save_cache\<close>.
\<close>

definition store_query_result ::
  "(json \<Rightarrow> str) \<Rightarrow> str \<Rightarrow> str \<Rightarrow> json \<Rightarrow> str \<Rightarrow> str \<Rightarrow> (str \<times> json) list \<Rightarrow> (str \<times> json) list
     \<Rightarrow> str \<Rightarrow> str option \<times> json" where
  "store_query_result fmt now_iso saved_iso cache_data sport query_type parameters result_data
       original_text =
     (let cache_key = generate_cache_key fmt query_type parameters;
          cache_entry = make_entry query_type parameters result_data original_text now_iso
      in case cache_data of
           JObj doc \<Rightarrow>
             (let doc1 = (if map_of doc sport = None then AList.update sport (JObj []) doc else doc)
              in case map_of doc1 sport of
                   Some (JObj entries) \<Rightarrow>
                     (Some cache_key,
                      save_cache saved_iso
                        (JObj (AList.update sport
                                 (JObj (AList.update cache_key cache_entry entries)) doc1)))
                 | _ \<Rightarrow> (None, cache_data))
         | _ \<Rightarrow> (None, cache_data))"

definition get_query_result :: "json \<Rightarrow> str \<Rightarrow> str \<Rightarrow> json option" where
  "get_query_result cache_data sport cache_key =
     (case cache_data of
        JObj doc \<Rightarrow>
          (case map_of doc sport of
             Some (JObj entries) \<Rightarrow> map_of entries cache_key
           | _ \<Rightarrow> None)
      | _ \<Rightarrow> None)"

subsection \<open>\<open>clear_cache\<close>\<close>

text \<open>
  \<open>if sport:\<close> holds for a non-empty string. \<open>reset_iso\<close> is the clock reading of the
  fresh metadata record, \<open>saved_iso\<close> the one of \<open>_save_cache\<close>.
\<close>

definition clear_cache :: "str \<Rightarrow> str \<Rightarrow> json \<Rightarrow> str option \<Rightarrow> json" where
  "clear_cache reset_iso saved_iso cache_data sport =
     (case sport of
        None \<Rightarrow> save_cache saved_iso (default_store reset_iso)
      | Some s \<Rightarrow>
          (if s = [] then save_cache saved_iso (default_store reset_iso)
           else (case cache_data of
                   JObj doc \<Rightarrow>
                     save_cache saved_iso
                       (if map_of doc s \<noteq> None then JObj (AList.update s (JObj []) doc)
                        else cache_data)
                 | _ \<Rightarrow> cache_data)))"

subsection \<open>\<open>get_available_options\<close>\<close>

record option_view =
  opt_value :: json
  opt_label :: str
  opt_cache_key :: str
  opt_original_text :: json
  opt_timestamp :: json

definition league_names :: "(int \<times> str) list" where
  "league_names =
     [(2021, [0x82F1, 0x8D85]), (2014, [0x897F, 0x7532]), (2002, [0x5FB7, 0x7532]),
      (2019, [0x610F, 0x7532]), (2015, [0x6CD5, 0x7532]), (2017, [0x8461, 0x8D85]),
      (2003, [0x8377, 0x7532]), (2013, [0x5DF4, 0x7532])]"

text \<open>
  \<open>_get_league_name\<close>: \<open>league_names.get(league_id, default)\<close>. A list or a dict is not
  hashable and the lookup raises (\<open>None\<close>); \<open>True\<close> and \<open>False\<close> are the keys 1 and 0.
\<close>

definition get_league_name :: "(json \<Rightarrow> str) \<Rightarrow> json \<Rightarrow> str option" where
  "get_league_name fmt league_id =
     (let default = [0x8054, 0x8D5B] @ fmt league_id
      in case league_id of
           JInt i \<Rightarrow> Some (case map_of league_names i of Some name \<Rightarrow> name | None \<Rightarrow> default)
         | JBool b \<Rightarrow>
             Some (case map_of league_names (if b then 1 else 0) of
                     Some name \<Rightarrow> name | None \<Rightarrow> default)
         | JArr xs \<Rightarrow> None
         | JObj kvs \<Rightarrow> None
         | _ \<Rightarrow> Some default)"

text \<open>
  The body of the loop for one entry: \<open>None\<close> when it raises, otherwise the options it
  appends (none or one). \<open>this_year\<close> is \<open>datetime.now().year\<close>.
\<close>

definition entry_options ::
  "(json \<Rightarrow> str) \<Rightarrow> int \<Rightarrow> str \<Rightarrow> str \<Rightarrow> str \<Rightarrow> json \<Rightarrow> option_view list option" where
  "entry_options fmt this_year sport query_type cache_key cache_entry =
     (case cache_entry of
        JObj e \<Rightarrow>
          (if map_of e (asc ''query_type'') = Some (JStr query_type)
              \<and> truthy (dict_get e (asc ''success''))
           then
             (let parameters =
                    (case map_of e (asc ''parameters'') of Some p \<Rightarrow> p | None \<Rightarrow> JObj []);
                  original = (case map_of e (asc ''original_text'') of
                                Some t \<Rightarrow> t | None \<Rightarrow> JStr []);
                  stamp = dict_get e (asc ''timestamp'')
              in if query_type = asc ''standings'' \<and> sport = asc ''football'' then
                   (case parameters of
                      JObj ps \<Rightarrow>
                        (let league_id = dict_get ps (asc ''league_id'')
                         in if truthy league_id
                            then (case get_league_name fmt league_id of
                                    None \<Rightarrow> None
                                  | Some league_name \<Rightarrow>
                                      Some [\<lparr>opt_value = league_id, opt_label = league_name,
                                             opt_cache_key = cache_key,
                                             opt_original_text = original,
                                             opt_timestamp = stamp\<rparr>])
                            else Some [])
                    | _ \<Rightarrow> None)
                 else if query_type = asc ''schedule'' \<and> sport = asc ''nba'' then
                   (case parameters of
                      JObj ps \<Rightarrow>
                        (let team = dict_get ps (asc ''team'')
                         in if truthy team
                            then Some [\<lparr>opt_value = team,
                                        opt_label = fmt team @ [0x20, 0x8D5B, 0x7A0B],
                                        opt_cache_key = cache_key,
                                        opt_original_text = original,
                                        opt_timestamp = stamp\<rparr>]
                            else Some [])
                    | _ \<Rightarrow> None)
                 else if query_type = asc ''standings'' \<and> sport = asc ''f1'' then
                   (case parameters of
                      JObj ps \<Rightarrow>
                        (let year = (case map_of ps (asc ''year'') of
                                       Some y \<Rightarrow> y | None \<Rightarrow> JInt this_year)
                         in Some [\<lparr>opt_value = JStr (asc ''f1_'' @ fmt year),
                                    opt_label =
                                      fmt year @ [0x5E74, 0x20, 0x46, 0x31, 0x79EF, 0x5206, 0x699C],
                                    opt_cache_key = cache_key,
                                    opt_original_text = original,
                                    opt_timestamp = stamp\<rparr>])
                    | _ \<Rightarrow> None)
                 else Some [])
           else Some [])
      | _ \<Rightarrow> None)"

text \<open>The loop over \<open>cache_data[sport].items()\<close>; an exception leaves it.\<close>

fun collect_options ::
  "(str \<Rightarrow> json \<Rightarrow> option_view list option) \<Rightarrow> (str \<times> json) list \<Rightarrow> option_view list option" where
  "collect_options body [] = Some []"
| "collect_options body ((cache_key, cache_entry) # rest) =
     (case body cache_key cache_entry of
        None \<Rightarrow> None
      | Some found \<Rightarrow>
          (case collect_options body rest of
             None \<Rightarrow> None
           | Some others \<Rightarrow> Some (found @ others)))"

text \<open>
  \<open>options.sort(key=lambda x: x.get('timestamp', ''), reverse=True)\<close>. The sort is stable
  and \<open>reverse=True\<close> keeps the original order of equal keys: it is the stable ascending
  sort of the reversed list, reversed. Strings compare by code points, a proper prefix
  being smaller. A list of at most one option is not compared at all. For two or more
  options whose keys are not all strings the outcome is Python's (numbers are ordered,
  \<open>None\<close> raises \<open>TypeError\<close>); it is the parameter \<open>sort_other\<close>, \<open>None\<close> for an exception.
\<close>

definition is_string :: "json \<Rightarrow> bool" where
  "is_string v = (case v of JStr s \<Rightarrow> True | _ \<Rightarrow> False)"

definition stamp_key :: "option_view \<Rightarrow> str" where
  "stamp_key x = (case opt_timestamp x of JStr s \<Rightarrow> s | _ \<Rightarrow> [])"

definition sort_options ::
  "(option_view list \<Rightarrow> option_view list option) \<Rightarrow> option_view list \<Rightarrow> option_view list option" where
  "sort_options sort_other options =
     (if list_all (\<lambda>x. is_string (opt_timestamp x)) options
      then Some (rev (sort_key stamp_key (rev options)))
      else if length options \<le> 1 then Some options
      else sort_other options)"

text \<open>The options before sorting, in the order of the entries; \<open>None\<close> for an exception.\<close>

definition unsorted_options ::
  "(json \<Rightarrow> str) \<Rightarrow> int \<Rightarrow> json \<Rightarrow> str \<Rightarrow> str \<Rightarrow> option_view list option" where
  "unsorted_options fmt this_year cache_data sport query_type =
     (case cache_data of
        JObj doc \<Rightarrow>
          (case map_of doc sport of
             None \<Rightarrow> Some []
           | Some (JObj entries) \<Rightarrow>
               collect_options (entry_options fmt this_year sport query_type) entries
           | Some _ \<Rightarrow> None)
      | _ \<Rightarrow> None)"

definition get_available_options ::
  "(json \<Rightarrow> str) \<Rightarrow> (option_view list \<Rightarrow> option_view list option) \<Rightarrow> int \<Rightarrow> json \<Rightarrow> str \<Rightarrow> str
     \<Rightarrow> option_view list" where
  "get_available_options fmt sort_other this_year cache_data sport query_type =
     (case unsorted_options fmt this_year cache_data sport query_type of
        None \<Rightarrow> []
      | Some options \<Rightarrow>
          (case sort_options sort_other options of
             None \<Rightarrow> []
           | Some sorted_options \<Rightarrow> sorted_options))"


subsection \<open>A store for the examples\<close>

text \<open>
  Five football entries: three successful standings (two of them with the same
  timestamp), one failed standings query and one query of another type.
\<close>

definition demo_store :: json where
  "demo_store =
     JObj [(asc ''football'',
        JObj [(asc ''standings_league_id_2014'',
                 JObj [(asc ''query_type'', JStr (asc ''standings'')),
                       (asc ''parameters'', JObj [(asc ''league_id'', JInt 2014)]),
                       (asc ''timestamp'', JStr (asc ''2024-05-01T10:00:00'')),
                       (asc ''success'', JBool True)]),
              (asc ''standings_league_id_2021'',
                 JObj [(asc ''query_type'', JStr (asc ''standings'')),
                       (asc ''parameters'', JObj [(asc ''league_id'', JInt 2021)]),
                       (asc ''timestamp'', JStr (asc ''2024-05-02T10:00:00'')),
                       (asc ''success'', JBool True)]),
              (asc ''standings_league_id_2002'',
                 JObj [(asc ''query_type'', JStr (asc ''standings'')),
                       (asc ''parameters'', JObj [(asc ''league_id'', JInt 2002)]),
                       (asc ''timestamp'', JStr (asc ''2024-05-01T10:00:00'')),
                       (asc ''success'', JBool True)]),
              (asc ''standings_league_id_2019'',
                 JObj [(asc ''query_type'', JStr (asc ''standings'')),
                       (asc ''parameters'', JObj [(asc ''league_id'', JInt 2019)]),
                       (asc ''timestamp'', JStr (asc ''2024-05-03T10:00:00'')),
                       (asc ''success'', JBool False)]),
              (asc ''top_scorers_league_id_2015'',
                 JObj [(asc ''query_type'', JStr (asc ''top_scorers'')),
                       (asc ''parameters'', JObj [(asc ''league_id'', JInt 2015)]),
                       (asc ''timestamp'', JStr (asc ''2024-05-04T10:00:00'')),
                       (asc ''success'', JBool True)])])]"


section \<open>Statements of the specification\<close>

text \<open>
  The selection rule of the specification for a keyword table: nothing is chosen when
  every row counts zero; otherwise the chosen row counts more than zero, strictly more
  than every row declared before it and at least as much as every row declared after it.
\<close>

definition first_best :: "(str \<Rightarrow> str) \<Rightarrow> (str \<times> str list) list \<Rightarrow> str \<Rightarrow> str option \<Rightarrow> bool" where
  "first_best f table text choice =
     (case choice of
        None \<Rightarrow> (\<forall>(name, keywords) \<in> set table. keyword_score f keywords text = 0)
      | Some name \<Rightarrow>
          (\<exists>before keywords after.
             table = before @ (name, keywords) # after
             \<and> 0 < keyword_score f keywords text
             \<and> (\<forall>(n, ks) \<in> set before. keyword_score f ks text < keyword_score f keywords text)
             \<and> (\<forall>(n, ks) \<in> set after. keyword_score f ks text \<le> keyword_score f keywords text)))"

text \<open>
  The cache key of the specification: the query type, then for each of the four names in
  their fixed order one fragment "name\_value" when the mapping has the name, all joined
  by "\_". The mapping is a partial function, which has no insertion order.
\<close>

definition cache_key_spec :: "(json \<Rightarrow> str) \<Rightarrow> str \<Rightarrow> (str \<rightharpoonup> json) \<Rightarrow> str" where
  "cache_key_spec fmt query_type m =
     join (asc ''_'')
       (query_type #
        List.map_filter (\<lambda>name. map_option (\<lambda>v. name @ asc ''_'' @ fmt v) (m name))
          [asc ''league_id'', asc ''team'', asc ''year'', asc ''round''])"

text \<open>The entries of a domain of the store, in their order (none for another shape).\<close>

definition domain_entries :: "json \<Rightarrow> str \<Rightarrow> (str \<times> json) list" where
  "domain_entries cache_data sport =
     (case cache_data of
        JObj doc \<Rightarrow> (case map_of doc sport of Some (JObj entries) \<Rightarrow> entries | _ \<Rightarrow> [])
      | _ \<Rightarrow> [])"


section \<open>Properties of the parser\<close>

subsection \<open>Bounds of the confidence\<close>

lemma scored_confidence:
  "0 \<le> res_confidence (scored db text) \<and> res_confidence (scored db text) \<le> 6 / 10"
  by (simp add: scored_def detect_query_type_def detect_sport_def initial_result_def Let_def)

lemma player_rule_confidence:
  "0 \<le> res_confidence r \<Longrightarrow> res_confidence r \<le> 9 / 10 \<Longrightarrow>
   0 \<le> res_confidence (player_rule text r) \<and> res_confidence (player_rule text r) \<le> 9 / 10"
  by (auto simp add: player_rule_def max_def split: option.splits)

lemma football_rule_confidence:
  "0 \<le> res_confidence r \<Longrightarrow> res_confidence r \<le> 9 / 10 \<Longrightarrow>
   0 \<le> res_confidence (football_rule text r) \<and> res_confidence (football_rule text r) \<le> 9 / 10"
  by (auto simp add: football_rule_def max_def)

lemma f1_teams_rule_confidence:
  "0 \<le> res_confidence r \<Longrightarrow> res_confidence r \<le> 9 / 10 \<Longrightarrow>
   0 \<le> res_confidence (f1_teams_rule text r) \<and> res_confidence (f1_teams_rule text r) \<le> 9 / 10"
  by (auto simp add: f1_teams_rule_def max_def)

lemma f1_drivers_rule_confidence:
  "0 \<le> res_confidence r \<Longrightarrow> res_confidence r \<le> 9 / 10 \<Longrightarrow>
   0 \<le> res_confidence (f1_drivers_rule text r) \<and> res_confidence (f1_drivers_rule text r) \<le> 9 / 10"
  by (auto simp add: f1_drivers_rule_def max_def)

lemma add_parameters_Inr:
  "add_parameters db nt r = Inr r' \<Longrightarrow>
   \<exists>params. extract_parameters db nt (res_sport r) = Inr params
     \<and> r' = r\<lparr>res_parameters := params,
              res_confidence := res_confidence r + (if params = [] then 0 else 4 / 10)\<rparr>"
  by (auto simp: add_parameters_def split: sum.splits if_splits)

lemma add_parameters_confidence:
  "add_parameters db nt r = Inr r' \<Longrightarrow>
   res_confidence r' = res_confidence r + (if res_parameters r' = [] then 0 else 4 / 10)"
  by (auto dest!: add_parameters_Inr)

lemma parse_query_Inr:
  "parse_query db raw = Inr r' \<Longrightarrow>
   add_parameters db (normalized db raw)
     (f1_drivers_rule (normalized db raw) (before_drivers_rule db (normalized db raw))) = Inr r'"
  by (simp add: parse_query_def Let_def)

lemma before_drivers_rule_confidence:
  "0 \<le> res_confidence (before_drivers_rule db text) \<and>
   res_confidence (before_drivers_rule db text) \<le> 9 / 10"
proof -
  have c0: "0 \<le> res_confidence (scored db text) \<and> res_confidence (scored db text) \<le> 9 / 10"
    using scored_confidence [of db "text"] by simp
  have c1: "0 \<le> res_confidence (player_rule text (scored db text)) \<and>
            res_confidence (player_rule text (scored db text)) \<le> 9 / 10"
    using c0 player_rule_confidence by blast
  have c2: "0 \<le> res_confidence (football_rule text (player_rule text (scored db text))) \<and>
            res_confidence (football_rule text (player_rule text (scored db text))) \<le> 9 / 10"
    using c1 football_rule_confidence by blast
  show ?thesis
    unfolding before_drivers_rule_def using c2 f1_teams_rule_confidence by blast
qed

lemma confidence_attained:
  "parse_query ascii_db
      [0x32, 0x30, 0x32, 0x34, 0x5E74, 0x46, 0x31, 0x8F66, 0x624B, 0x79EF, 0x5206, 0x699C]
   = Inr \<lparr>res_sport = Some (asc ''f1''), res_query_type = Some (asc ''standings''),
          res_parameters = [(asc ''year'', JInt 2024)], res_confidence = 13 / 10,
          res_original_text =
            [0x32, 0x30, 0x32, 0x34, 0x5E74, 0x66, 0x31, 0x8F66, 0x624B, 0x79EF, 0x5206, 0x699C]\<rparr>"
  by code_simp

text \<open>
  Claim C9. With the increments and raises taken as exact rationals, the confidence of
  every descriptor that \<open>parse_query\<close> returns lies between 0 and 1.3 (before the
  parameter bonus it lies between 0 and 0.9, for every text), and 1.3 is attained: the
  text of the last conjunct is "2024", the year sign, "F1", and the words for drivers and
  standings.
\<close>

theorem confidence_bounds:
  "(\<forall>r. parse_query db raw = Inr r \<longrightarrow> 0 \<le> res_confidence r \<and> res_confidence r \<le> 13 / 10)
   \<and> 0 \<le> res_confidence
            (f1_drivers_rule (normalized db raw) (before_drivers_rule db (normalized db raw)))
   \<and> res_confidence
         (f1_drivers_rule (normalized db raw) (before_drivers_rule db (normalized db raw)))
       \<le> 9 / 10
   \<and> (\<exists>r. parse_query ascii_db
              [0x32, 0x30, 0x32, 0x34, 0x5E74, 0x46, 0x31, 0x8F66, 0x624B, 0x79EF, 0x5206, 0x699C]
            = Inr r \<and> res_confidence r = 13 / 10)"
proof -
  define nt where "nt = normalized db raw"
  define r0 where "r0 = f1_drivers_rule nt (before_drivers_rule db nt)"
  have b: "0 \<le> res_confidence r0 \<and> res_confidence r0 \<le> 9 / 10"
    unfolding r0_def using before_drivers_rule_confidence [of db nt] f1_drivers_rule_confidence
    by blast
  have "0 \<le> res_confidence r \<and> res_confidence r \<le> 13 / 10" if p: "parse_query db raw = Inr r" for r
  proof -
    from parse_query_Inr [OF p] have "add_parameters db nt r0 = Inr r"
      by (simp add: nt_def r0_def)
    from add_parameters_confidence [OF this] b show ?thesis
      by (auto split: if_splits)
  qed
  moreover have "\<exists>r. parse_query ascii_db
              [0x32, 0x30, 0x32, 0x34, 0x5E74, 0x46, 0x31, 0x8F66, 0x624B, 0x79EF, 0x5206, 0x699C]
            = Inr r \<and> res_confidence r = 13 / 10"
    unfolding confidence_attained by simp
  ultimately show ?thesis using b unfolding r0_def nt_def by blast
qed

lemma nba_2024_example:
  "parse_query ascii_db (asc ''nba 2024'')
   = Inr \<lparr>res_sport = Some (asc ''nba''), res_query_type = None,
          res_parameters = [(asc ''year'', JInt 2024)], res_confidence = 7 / 10,
          res_original_text = asc ''nba 2024''\<rparr>"
  by code_simp

theorem confidence_bounds_witness:
  "parse_query ascii_db (asc ''nba 2024'')
     = Inr \<lparr>res_sport = Some (asc ''nba''), res_query_type = None,
            res_parameters = [(asc ''year'', JInt 2024)], res_confidence = 7 / 10,
            res_original_text = asc ''nba 2024''\<rparr>
   \<and> (0::rat) \<le> 7 / 10 \<and> (7::rat) / 10 \<le> 13 / 10"
proof -
  let ?r = "\<lparr>res_sport = Some (asc ''nba''), res_query_type = None,
            res_parameters = [(asc ''year'', JInt 2024)], res_confidence = 7 / 10,
            res_original_text = asc ''nba 2024''\<rparr>"
  from confidence_bounds [of ascii_db "asc ''nba 2024''"] nba_2024_example
  have "0 \<le> res_confidence ?r \<and> res_confidence ?r \<le> 13 / 10" by blast
  with nba_2024_example show ?thesis by simp
qed

subsection \<open>Scoring and tie-break\<close>

lemma max_from_split:
  "max_from (k0, v0) rest = k \<Longrightarrow>
   \<exists>before v after. (k0, v0) # rest = before @ (k, v) # after
     \<and> (\<forall>(k', v') \<in> set before. v' < v) \<and> (\<forall>(k', v') \<in> set after. v' \<le> v)"
proof (induction rest arbitrary: k0 v0)
  case Nil
  then have "(k0, v0) # [] = [] @ (k, v0) # []" by simp
  then show ?case by fastforce
next
  case (Cons kv rest)
  obtain k1 v1 where kv: "kv = (k1, v1)" by (cases kv)
  show ?case
  proof (cases "v1 > v0")
    case True
    with Cons.prems kv have "max_from (k1, v1) rest = k" by simp
    from Cons.IH [OF this] obtain before v after where
      s: "(k1, v1) # rest = before @ (k, v) # after"
      and b: "\<forall>(k', v') \<in> set before. v' < v" and a: "\<forall>(k', v') \<in> set after. v' \<le> v"
      by blast
    have "v1 \<le> v"
    proof (cases before)
      case Nil
      with s show ?thesis by simp
    next
      case (Cons x xs)
      with s have "x = (k1, v1)" by simp
      with Cons b show ?thesis by auto
    qed
    with True have v0: "v0 < v" by simp
    have "(k0, v0) # kv # rest = ((k0, v0) # before) @ (k, v) # after"
      using s kv by simp
    moreover have "\<forall>(k', v') \<in> set ((k0, v0) # before). v' < v"
      using b v0 by simp
    ultimately show ?thesis using a by blast
  next
    case False
    with Cons.prems kv have "max_from (k0, v0) rest = k" by simp
    from Cons.IH [OF this] obtain before v after where
      s: "(k0, v0) # rest = before @ (k, v) # after"
      and b: "\<forall>(k', v') \<in> set before. v' < v" and a: "\<forall>(k', v') \<in> set after. v' \<le> v"
      by blast
    show ?thesis
    proof (cases before)
      case Nil
      with s have e: "k = k0" "v = v0" "after = rest" by simp_all
      have "(k0, v0) # kv # rest = [] @ (k, v) # (kv # rest)"
        using e by simp
      moreover have "\<forall>(k', v') \<in> set (kv # rest). v' \<le> v"
        using a e kv False by auto
      moreover have "\<forall>(k', v') \<in> set ([] :: ('a \<times> nat) list). v' < v" by simp
      ultimately show ?thesis by blast
    next
      case (Cons x xs)
      with s have x: "x = (k0, v0)" and r: "rest = xs @ (k, v) # after"
        by simp_all
      from b Cons x have v0: "v0 < v" by auto
      have "(k0, v0) # kv # rest = ((k0, v0) # kv # xs) @ (k, v) # after"
        using r by simp
      moreover have "\<forall>(k', v') \<in> set ((k0, v0) # kv # xs). v' < v"
        using b Cons x kv False v0 by auto
      ultimately show ?thesis using a by blast
    qed
  qed
qed

lemma py_max_key_split:
  assumes "py_max_key d = Some k"
  shows "\<exists>before v after. d = before @ (k, v) # after
     \<and> (\<forall>(k', v') \<in> set before. v' < v) \<and> (\<forall>(k', v') \<in> set after. v' \<le> v)"
proof (cases d)
  case Nil
  with assms show ?thesis by (simp add: py_max_key_def)
next
  case (Cons kv rest)
  obtain k0 v0 where kv: "kv = (k0, v0)" by (cases kv)
  with Cons assms have "max_from (k0, v0) rest = k" by (simp add: py_max_key_def)
  from max_from_split [OF this] Cons kv show ?thesis by simp
qed

lemma scores_Nil: "scores f [] text = []"
  by (simp add: scores_def)

lemma scores_Cons:
  "scores f ((n, ks) # table) text =
     (if 0 < keyword_score f ks text then (n, keyword_score f ks text) # scores f table text
      else scores f table text)"
  by (simp add: scores_def)

lemma scores_split:
  "scores f table text = before @ (name, v) # after \<Longrightarrow>
   \<exists>tb kws ta. table = tb @ (name, kws) # ta
      \<and> v = keyword_score f kws text \<and> 0 < v
      \<and> scores f tb text = before \<and> scores f ta text = after"
proof (induction table arbitrary: before)
  case Nil
  then show ?case by (simp add: scores_Nil)
next
  case (Cons t table)
  obtain n ks where t: "t = (n, ks)" by (cases t)
  show ?case
  proof (cases "0 < keyword_score f ks text")
    case False
    with Cons.prems t have "scores f table text = before @ (name, v) # after"
      by (simp add: scores_Cons)
    from Cons.IH [OF this] obtain tb kws ta where
      h: "table = tb @ (name, kws) # ta" "v = keyword_score f kws text" "0 < v"
         "scores f tb text = before" "scores f ta text = after"
      by blast
    have "t # table = (t # tb) @ (name, kws) # ta" using h(1) by simp
    moreover have "scores f (t # tb) text = before"
      using h(4) False t by (simp add: scores_Cons)
    ultimately show ?thesis using h(2,3,5) by blast
  next
    case True
    with Cons.prems t have e: "(n, keyword_score f ks text) # scores f table text
                               = before @ (name, v) # after"
      by (simp add: scores_Cons)
    show ?thesis
    proof (cases before)
      case Nil
      with e have "n = name" "v = keyword_score f ks text" "scores f table text = after"
        by simp_all
      with True t Nil have "t # table = [] @ (name, ks) # table
          \<and> v = keyword_score f ks text \<and> 0 < v
          \<and> scores f [] text = before \<and> scores f table text = after"
        by (simp add: scores_Nil)
      then show ?thesis by blast
    next
      case (Cons x bs)
      with e have x: "x = (n, keyword_score f ks text)"
        and r: "scores f table text = bs @ (name, v) # after"
        by simp_all
      from Cons.IH [OF r] obtain tb kws ta where
        h: "table = tb @ (name, kws) # ta" "v = keyword_score f kws text" "0 < v"
           "scores f tb text = bs" "scores f ta text = after"
        by blast
      have "t # table = (t # tb) @ (name, kws) # ta" using h(1) by simp
      moreover have "scores f (t # tb) text = before"
        using h(4) True t x Cons by (simp add: scores_Cons)
      ultimately show ?thesis using h(2,3,5) by blast
    qed
  qed
qed

lemma scores_members:
  "(n, ks) \<in> set table \<Longrightarrow> keyword_score f ks text = 0 \<or> (n, keyword_score f ks text) \<in> set (scores f table text)"
  by (force simp: scores_def)

lemma scores_empty:
  "scores f table text = [] \<longleftrightarrow> (\<forall>(name, keywords) \<in> set table. keyword_score f keywords text = 0)"
  by (auto simp: scores_def filter_empty_conv)

lemma first_best_scores:
  "first_best f table text (py_max_key (scores f table text))"
proof (cases "py_max_key (scores f table text)")
  case None
  then have "scores f table text = []" by (simp add: py_max_key_def split: list.splits)
  then have "\<forall>(name, keywords) \<in> set table. keyword_score f keywords text = 0"
    by (simp only: scores_empty)
  moreover have "first_best f table text (py_max_key (scores f table text))
      = (\<forall>(name, keywords) \<in> set table. keyword_score f keywords text = 0)"
    unfolding first_best_def None by simp
  ultimately show ?thesis by blast
next
  case (Some k)
  from py_max_key_split [OF Some] obtain before v after where
    d: "scores f table text = before @ (k, v) # after"
    and b: "\<forall>(k', v') \<in> set before. v' < v" and a: "\<forall>(k', v') \<in> set after. v' \<le> v"
    by blast
  from scores_split [OF d] obtain tb kws ta where
    t: "table = tb @ (k, kws) # ta" and v: "v = keyword_score f kws text" "0 < v"
    and sb: "scores f tb text = before" and sa: "scores f ta text = after"
    by blast
  have "\<forall>(n, ks) \<in> set tb. keyword_score f ks text < v"
  proof (clarify)
    fix n ks assume "(n, ks) \<in> set tb"
    from scores_members [OF this, of f "text"] sb b v(2)
    show "keyword_score f ks text < v" by auto
  qed
  moreover have "\<forall>(n, ks) \<in> set ta. keyword_score f ks text \<le> v"
  proof (clarify)
    fix n ks assume "(n, ks) \<in> set ta"
    from scores_members [OF this, of f "text"] sa a
    show "keyword_score f ks text \<le> v" by auto
  qed
  ultimately show ?thesis using Some t v by (auto simp: first_best_def)
qed

lemma first_best_unique:
  assumes c: "first_best f table text c" and c': "first_best f table text c'"
  shows "c = c'"
proof -
  have none_some: False
    if n: "first_best f table text None" and s: "first_best f table text (Some d)" for d
  proof -
    from s obtain before kws after where
      "table = before @ (d, kws) # after" "0 < keyword_score f kws text"
      by (auto simp: first_best_def)
    moreover from n have "\<forall>(name, ks) \<in> set table. keyword_score f ks text = 0"
      by (simp add: first_best_def)
    ultimately show False by auto
  qed
  have some_some: "d = e"
    if d: "first_best f table text (Some d)" and e: "first_best f table text (Some e)" for d e
  proof -
    from d obtain b1 k1 a1 where
      t1: "table = b1 @ (d, k1) # a1"
      and l1: "\<forall>(n, ks) \<in> set b1. keyword_score f ks text < keyword_score f k1 text"
      and g1: "\<forall>(n, ks) \<in> set a1. keyword_score f ks text \<le> keyword_score f k1 text"
      by (auto simp: first_best_def)
    from e obtain b2 k2 a2 where
      t2: "table = b2 @ (e, k2) # a2"
      and l2: "\<forall>(n, ks) \<in> set b2. keyword_score f ks text < keyword_score f k2 text"
      and g2: "\<forall>(n, ks) \<in> set a2. keyword_score f ks text \<le> keyword_score f k2 text"
      by (auto simp: first_best_def)
    from t1 t2 have "b1 @ (d, k1) # a1 = b2 @ (e, k2) # a2" by simp
    from this [unfolded append_eq_append_conv2]
    obtain us where
      "(b1 = b2 @ us \<and> us @ (d, k1) # a1 = (e, k2) # a2)
       \<or> (b1 @ us = b2 \<and> (d, k1) # a1 = us @ (e, k2) # a2)"
      by blast
    then show ?thesis
    proof
      assume h: "b1 = b2 @ us \<and> us @ (d, k1) # a1 = (e, k2) # a2"
      show ?thesis
      proof (cases us)
        case Nil
        with h show ?thesis by simp
      next
        case (Cons x xs)
        with h have "(e, k2) \<in> set b1" and "(d, k1) \<in> set a2" by auto
        with l1 g2 have "keyword_score f k2 text < keyword_score f k1 text"
          and "keyword_score f k1 text \<le> keyword_score f k2 text" by auto
        then show ?thesis by simp
      qed
    next
      assume h: "b1 @ us = b2 \<and> (d, k1) # a1 = us @ (e, k2) # a2"
      show ?thesis
      proof (cases us)
        case Nil
        with h show ?thesis by simp
      next
        case (Cons x xs)
        with h have "(d, k1) \<in> set b2" and "(e, k2) \<in> set a1" by auto
        with l2 g1 have "keyword_score f k1 text < keyword_score f k2 text"
          and "keyword_score f k2 text \<le> keyword_score f k1 text" by auto
        then show ?thesis by simp
      qed
    qed
  qed
  show ?thesis
  proof (cases c)
    case None
    note cn = None
    show ?thesis
    proof (cases c')
      case None
      with cn show ?thesis by simp
    next
      case (Some e)
      with cn c c' none_some show ?thesis by blast
    qed
  next
    case (Some d)
    note cs = Some
    show ?thesis
    proof (cases c')
      case None
      with cs c c' none_some show ?thesis by blast
    next
      case (Some e)
      with cs c c' some_some show ?thesis by blast
    qed
  qed
qed

lemma res_sport_scored:
  "res_sport (scored db nt) = py_max_key (scores (str_lower db) sport_keywords nt)"
  by (simp add: scored_def detect_query_type_def detect_sport_def initial_result_def Let_def
      py_max_key_def)

lemma res_query_type_scored:
  "res_query_type (scored db nt) = py_max_key (scores (\<lambda>keyword. keyword) query_types nt)"
  by (simp add: scored_def detect_query_type_def detect_sport_def initial_result_def Let_def
      py_max_key_def)

lemma res_sport_player_rule: "res_sport (player_rule nt r) = res_sport r"
  by (simp add: player_rule_def split: option.splits)

lemma res_sport_football_rule: "res_sport (football_rule nt r) = res_sport r"
  by (simp add: football_rule_def)

lemma res_sport_f1_teams_rule: "res_sport (f1_teams_rule nt r) = res_sport r"
  by (simp add: f1_teams_rule_def)

lemma res_sport_f1_drivers_rule: "res_sport (f1_drivers_rule nt r) = res_sport r"
  by (simp add: f1_drivers_rule_def)

lemma res_sport_add_parameters: "add_parameters db nt r = Inr r' \<Longrightarrow> res_sport r' = res_sport r"
  by (auto dest!: add_parameters_Inr)

lemma res_sport_before_drivers_rule: "res_sport (before_drivers_rule db nt) = res_sport (scored db nt)"
  by (simp add: before_drivers_rule_def res_sport_f1_teams_rule res_sport_football_rule
      res_sport_player_rule)

lemma res_sport_parse_query:
  "parse_query db raw = Inr r \<Longrightarrow> res_sport r = res_sport (scored db (normalized db raw))"
  using res_sport_add_parameters [OF parse_query_Inr]
  by (simp add: res_sport_f1_drivers_rule res_sport_before_drivers_rule)

text \<open>
  Claim C4. For every text, the domain and the intent that the scoring steps assign (the
  values of \<open>result['sport']\<close> and \<open>result['query_type']\<close> before the override rules
  run) are the first best rows of their keyword tables: the count of a row is the number
  of its keywords that occur in the normalized text (the domain keywords lower-cased), the
  chosen row has the highest count, which is positive, and is the first declared row with
  that count; nothing is chosen exactly when every row counts zero. The domain of every
  descriptor that \<open>parse_query\<close> returns is the one the scoring step assigned. The rule
  determines the choice, so the selection is deterministic.
\<close>

theorem scoring_selects_first_best:
  "first_best (str_lower db) sport_keywords (normalized db raw)
     (res_sport (scored db (normalized db raw)))
   \<and> (\<forall>r. parse_query db raw = Inr r \<longrightarrow>
         res_sport r = res_sport (scored db (normalized db raw))
         \<and> first_best (str_lower db) sport_keywords (normalized db raw) (res_sport r))
   \<and> first_best (\<lambda>keyword. keyword) query_types (normalized db raw)
         (res_query_type (scored db (normalized db raw)))
   \<and> (\<forall>c. first_best (str_lower db) sport_keywords (normalized db raw) c
            \<longrightarrow> c = res_sport (scored db (normalized db raw)))
   \<and> (\<forall>c. first_best (\<lambda>keyword. keyword) query_types (normalized db raw) c
            \<longrightarrow> c = res_query_type (scored db (normalized db raw)))"
proof -
  have s: "first_best (str_lower db) sport_keywords (normalized db raw)
             (res_sport (scored db (normalized db raw)))"
    unfolding res_sport_scored by (rule first_best_scores)
  have q: "first_best (\<lambda>keyword. keyword) query_types (normalized db raw)
             (res_query_type (scored db (normalized db raw)))"
    unfolding res_query_type_scored by (rule first_best_scores)
  have p: "\<forall>r. parse_query db raw = Inr r \<longrightarrow>
         res_sport r = res_sport (scored db (normalized db raw))
         \<and> first_best (str_lower db) sport_keywords (normalized db raw) (res_sport r)"
    using s res_sport_parse_query by (metis (no_types))
  from s q p first_best_unique show ?thesis by blast
qed

lemma standings_example:
  "parse_query ascii_db [0x79EF, 0x5206, 0x699C]
   = Inr \<lparr>res_sport = Some (asc ''f1''), res_query_type = Some (asc ''standings''),
          res_parameters = [], res_confidence = 6 / 10,
          res_original_text = [0x79EF, 0x5206, 0x699C]\<rparr>"
  by code_simp

theorem scoring_selects_first_best_witness:
  "first_best (str_lower ascii_db) sport_keywords [0x79EF, 0x5206, 0x699C] (Some (asc ''f1''))
   \<and> first_best (\<lambda>keyword. keyword) query_types [0x79EF, 0x5206, 0x699C] (Some (asc ''standings''))
   \<and> parse_query ascii_db [0x79EF, 0x5206, 0x699C]
     = Inr \<lparr>res_sport = Some (asc ''f1''), res_query_type = Some (asc ''standings''),
            res_parameters = [], res_confidence = 6 / 10,
            res_original_text = [0x79EF, 0x5206, 0x699C]\<rparr>"
proof -
  have n: "normalized ascii_db [0x79EF, 0x5206, 0x699C] = [0x79EF, 0x5206, 0x699C]"
    by code_simp
  have a: "res_sport (scored ascii_db [0x79EF, 0x5206, 0x699C]) = Some (asc ''f1'')"
    by code_simp
  have b: "res_query_type (scored ascii_db [0x79EF, 0x5206, 0x699C]) = Some (asc ''standings'')"
    by code_simp
  from scoring_selects_first_best [of ascii_db "[0x79EF, 0x5206, 0x699C]"] standings_example
  show ?thesis unfolding n a b by blast
qed

subsection \<open>Failure, and texts that match nothing\<close>












lemma extract_parameters_none:
  "extract_parameters db nt None = Inr [] \<longleftrightarrow> year_match db nt = None \<and> round_match db nt = None"
  by (auto simp: extract_parameters_def extract_year_def extract_round_def extract_team_def
      extract_player_def py_int_def split: option.splits sum.splits if_splits)

lemma extract_parameters_none_empty:
  "extract_parameters db nt None = Inr params \<Longrightarrow> params = [] \<Longrightarrow>
   year_match db nt = None \<and> round_match db nt = None"
  using extract_parameters_none by blast







subsection \<open>The drivers' standings override\<close>

text \<open>
  Claim C5, amended. For every text on which \<open>parse_query\<close> returns a descriptor whose
  domain is \<open>f1\<close> and whose normalized form contains the drivers word and the standings
  word, the returned intent is \<open>standings\<close>; the override step sets the confidence to the
  maximum of the previous confidence and 0.9; the returned confidence is that maximum
  plus 0.4 when at least one parameter was extracted, and that maximum otherwise; so it
  is at least 0.9. The witness is the text of scenario 1 of the specification.
\<close>

theorem drivers_standings_override:
  assumes "parse_query db raw = Inr r"
    and "res_sport r = Some (asc ''f1'')"
    and "is_in w_drivers (normalized db raw)"
    and "is_in w_standings (normalized db raw)"
  shows "res_query_type r = Some (asc ''standings'')
    \<and> res_confidence (f1_drivers_rule (normalized db raw) (before_drivers_rule db (normalized db raw)))
        = max (res_confidence (before_drivers_rule db (normalized db raw))) (9 / 10)
    \<and> res_confidence r
        = max (res_confidence (before_drivers_rule db (normalized db raw))) (9 / 10)
          + (if res_parameters r = [] then 0 else 4 / 10)
    \<and> 9 / 10 \<le> res_confidence r"
proof -
  define nt where "nt = normalized db raw"
  define r0 where "r0 = before_drivers_rule db nt"
  have sp: "res_sport r0 = Some (asc ''f1'')"
    using assms(2) res_sport_parse_query [OF assms(1)]
    unfolding r0_def nt_def res_sport_before_drivers_rule by simp
  have d: "f1_drivers_rule nt r0 =
             r0\<lparr>res_query_type := Some (asc ''standings''),
                res_confidence := max (res_confidence r0) (9 / 10)\<rparr>"
    using sp assms(3,4) by (simp add: f1_drivers_rule_def nt_def)
  have p: "add_parameters db nt (f1_drivers_rule nt r0) = Inr r"
    using parse_query_Inr [OF assms(1)] by (simp add: nt_def r0_def)
  have q: "res_query_type r = Some (asc ''standings'')"
    using add_parameters_Inr [OF p] unfolding d by auto
  have c1: "res_confidence (f1_drivers_rule nt r0) = max (res_confidence r0) (9 / 10)"
    unfolding d by simp
  have c2: "res_confidence r
        = max (res_confidence r0) (9 / 10) + (if res_parameters r = [] then 0 else 4 / 10)"
    using add_parameters_confidence [OF p] unfolding c1 .
  have c3: "9 / 10 \<le> res_confidence r"
    unfolding c2 by (simp add: max_def)
  from q c1 c2 c3 show ?thesis unfolding nt_def r0_def by blast
qed

lemma scenario_1:
  "parse_query ascii_db [0x67E5, 0x8BE2, 0x46, 0x31, 0x8F66, 0x624B, 0x79EF, 0x5206, 0x699C]
   = Inr \<lparr>res_sport = Some (asc ''f1''), res_query_type = Some (asc ''standings''),
          res_parameters = [], res_confidence = 9 / 10,
          res_original_text = [0x67E5, 0x8BE2, 0x66, 0x31, 0x8F66, 0x624B, 0x79EF, 0x5206, 0x699C]\<rparr>"
  by code_simp

theorem drivers_standings_override_witness:
  "parse_query ascii_db [0x67E5, 0x8BE2, 0x46, 0x31, 0x8F66, 0x624B, 0x79EF, 0x5206, 0x699C]
     = Inr \<lparr>res_sport = Some (asc ''f1''), res_query_type = Some (asc ''standings''),
            res_parameters = [], res_confidence = 9 / 10,
            res_original_text = [0x67E5, 0x8BE2, 0x66, 0x31, 0x8F66, 0x624B, 0x79EF, 0x5206, 0x699C]\<rparr>
   \<and> res_confidence (before_drivers_rule ascii_db (normalized ascii_db
         [0x67E5, 0x8BE2, 0x46, 0x31, 0x8F66, 0x624B, 0x79EF, 0x5206, 0x699C])) \<le> 9 / 10"
proof -
  let ?raw = "[0x67E5, 0x8BE2, 0x46, 0x31, 0x8F66, 0x624B, 0x79EF, 0x5206, 0x699C] :: str"
  let ?r = "\<lparr>res_sport = Some (asc ''f1''), res_query_type = Some (asc ''standings''),
            res_parameters = [], res_confidence = 9 / 10,
            res_original_text = [0x67E5, 0x8BE2, 0x66, 0x31, 0x8F66, 0x624B, 0x79EF, 0x5206, 0x699C]\<rparr>"
  have h2: "res_sport ?r = Some (asc ''f1'')"
    by simp
  have h3: "is_in w_drivers (normalized ascii_db ?raw)"
    by code_simp
  have h4: "is_in w_standings (normalized ascii_db ?raw)"
    by code_simp
  from drivers_standings_override [OF scenario_1 h2 h3 h4]
  have "res_confidence ?r
          = max (res_confidence (before_drivers_rule ascii_db (normalized ascii_db ?raw))) (9 / 10)
            + (if res_parameters ?r = [] then 0 else 4 / 10)"
    by blast
  then have "res_confidence (before_drivers_rule ascii_db (normalized ascii_db ?raw)) \<le> 9 / 10"
    by (simp add: max_def split: if_splits)
  with scenario_1 show ?thesis by blast
qed

text \<open>
  Claim C5 as stated fails: on "2024", the year sign, "F1", the drivers word and the
  standings word the domain is \<open>f1\<close> and both words occur, the confidence before the
  override is 0.6, and the returned confidence is 1.3, not \<open>max 0.6 0.9\<close>.
\<close>

theorem drivers_standings_confidence_counterexample:
  "parse_query ascii_db
      [0x32, 0x30, 0x32, 0x34, 0x5E74, 0x46, 0x31, 0x8F66, 0x624B, 0x79EF, 0x5206, 0x699C]
     = Inr \<lparr>res_sport = Some (asc ''f1''), res_query_type = Some (asc ''standings''),
            res_parameters = [(asc ''year'', JInt 2024)], res_confidence = 13 / 10,
            res_original_text =
              [0x32, 0x30, 0x32, 0x34, 0x5E74, 0x66, 0x31, 0x8F66, 0x624B, 0x79EF, 0x5206, 0x699C]\<rparr>
   \<and> is_in w_drivers (normalized ascii_db
      [0x32, 0x30, 0x32, 0x34, 0x5E74, 0x46, 0x31, 0x8F66, 0x624B, 0x79EF, 0x5206, 0x699C])
   \<and> is_in w_standings (normalized ascii_db
      [0x32, 0x30, 0x32, 0x34, 0x5E74, 0x46, 0x31, 0x8F66, 0x624B, 0x79EF, 0x5206, 0x699C])
   \<and> res_confidence (before_drivers_rule ascii_db (normalized ascii_db
      [0x32, 0x30, 0x32, 0x34, 0x5E74, 0x46, 0x31, 0x8F66, 0x624B, 0x79EF, 0x5206, 0x699C]))
     = 6 / 10
   \<and> (13 :: rat) / 10
     \<noteq> max (res_confidence (before_drivers_rule ascii_db (normalized ascii_db
      [0x32, 0x30, 0x32, 0x34, 0x5E74, 0x46, 0x31, 0x8F66, 0x624B, 0x79EF, 0x5206, 0x699C])))
         (9 / 10)"
  by code_simp


section \<open>Properties of the cache\<close>

subsection \<open>The cache key\<close>

lemma generate_cache_key_spec:
  "generate_cache_key fmt query_type parameters = cache_key_spec fmt query_type (map_of parameters)"
  by (simp add: generate_cache_key_def cache_key_spec_def key_params_def split: option.splits)

lemma store_returns_key:
  "fst (store_query_result fmt now_iso saved_iso cache_data sport query_type parameters result_data
          original_text) = Some k \<Longrightarrow> k = generate_cache_key fmt query_type parameters"
  by (auto simp: store_query_result_def Let_def split: json.splits option.splits if_splits)

text \<open>
  Claim C1. For every query type and parameter mapping, the key that
  \<open>_generate_cache_key\<close> computes (and \<open>store_query_result\<close> returns) is the key of the
  specification, which depends on the mapping only as a partial function; so two
  parameter dictionaries with the same name-value pairs in different insertion orders
  give the same key. The values are formatted by any \<open>fmt\<close>; the witness formats the
  integers of the specification's example.
\<close>

theorem cache_key_deterministic:
  "generate_cache_key fmt query_type parameters = cache_key_spec fmt query_type (map_of parameters)
   \<and> (map_of parameters = map_of parameters' \<longrightarrow>
        generate_cache_key fmt query_type parameters = generate_cache_key fmt query_type parameters')
   \<and> (fst (store_query_result fmt now_iso saved_iso cache_data sport query_type parameters
              result_data original_text) = Some k
        \<longrightarrow> k = cache_key_spec fmt query_type (map_of parameters))"
  using store_returns_key [of fmt now_iso saved_iso cache_data sport query_type parameters
      result_data original_text k]
  by (simp add: generate_cache_key_spec)

theorem cache_key_deterministic_witness:
  "generate_cache_key scalar_str (asc ''standings'')
       [(asc ''league_id'', JInt 2021), (asc ''year'', JInt 2024)]
     = asc ''standings_league_id_2021_year_2024''
   \<and> generate_cache_key scalar_str (asc ''standings'')
       [(asc ''year'', JInt 2024), (asc ''league_id'', JInt 2021)]
     = asc ''standings_league_id_2021_year_2024''"
proof -
  let ?p = "[(asc ''league_id'', JInt 2021), (asc ''year'', JInt 2024)]"
  let ?p' = "[(asc ''year'', JInt 2024), (asc ''league_id'', JInt 2021)]"
  have m: "map_of ?p = map_of ?p'"
    by (rule ext) (simp add: asc_def)
  have k: "cache_key_spec scalar_str (asc ''standings'') (map_of ?p)
             = asc ''standings_league_id_2021_year_2024''"
    by code_simp
  note t = cache_key_deterministic [of scalar_str "asc ''standings''" ?p ?p']
  have a: "generate_cache_key scalar_str (asc ''standings'') ?p
             = asc ''standings_league_id_2021_year_2024''"
    using t [THEN conjunct1] k by (rule trans)
  have b: "generate_cache_key scalar_str (asc ''standings'') ?p
             = generate_cache_key scalar_str (asc ''standings'') ?p'"
    using t [THEN conjunct2, THEN conjunct1] m by (rule mp)
  from a b show ?thesis by (simp only:)
qed

subsection \<open>Storing and reading back\<close>

lemma make_entry_fields:
  "\<exists>e. make_entry query_type parameters result_data original_text now_iso = JObj e
     \<and> map_of e (asc ''query_type'') = Some (JStr query_type)
     \<and> map_of e (asc ''parameters'') = Some (JObj parameters)
     \<and> map_of e (asc ''result_data'') = Some (JObj result_data)
     \<and> map_of e (asc ''original_text'') = Some (JStr original_text)
     \<and> map_of e (asc ''timestamp'') = Some (JStr now_iso)"
  by (simp add: make_entry_def asc_def)

lemma get_query_result_save_cache:
  "sport \<noteq> asc ''metadata'' \<Longrightarrow>
   get_query_result (save_cache saved_iso cache_data) sport k = get_query_result cache_data sport k"
  by (auto simp: get_query_result_def save_cache_def update_conv' split: json.splits option.splits)

lemma get_query_result_update:
  "get_query_result (JObj (AList.update sport (JObj (AList.update k v entries)) doc)) sport k = Some v"
  by (simp add: get_query_result_def update_conv')

lemma store_query_result_cases:
  "store_query_result fmt now_iso saved_iso cache_data sport query_type parameters result_data
      original_text = (Some k, cache_data') \<Longrightarrow>
   \<exists>doc entries.
     k = generate_cache_key fmt query_type parameters
     \<and> cache_data' = save_cache saved_iso
          (JObj (AList.update sport
             (JObj (AList.update k
                (make_entry query_type parameters result_data original_text now_iso) entries)) doc))"
  by (auto simp: store_query_result_def Let_def split: json.splits option.splits if_splits)

text \<open>
  Claim C2. For every domain, query type, parameter mapping, result payload and original
  text: when \<open>store_query_result\<close> returns the key \<open>k\<close>, \<open>get_query_result\<close> on the new
  store returns, for that domain and \<open>k\<close>, an entry whose \<open>result_data\<close>, \<open>parameters\<close> and
  \<open>original_text\<close> are the stored ones and whose \<open>timestamp\<close> is the clock reading of the
  store. A domain is any top-level key other than \<open>metadata\<close>, the record that
  \<open>_save_cache\<close> updates after the insertion.
\<close>

theorem store_get_roundtrip:
  assumes "sport \<noteq> asc ''metadata''"
    and "store_query_result fmt now_iso saved_iso cache_data sport query_type parameters
           result_data original_text = (Some k, cache_data')"
  shows "\<exists>e. get_query_result cache_data' sport k = Some (JObj e)
     \<and> map_of e (asc ''result_data'') = Some (JObj result_data)
     \<and> map_of e (asc ''parameters'') = Some (JObj parameters)
     \<and> map_of e (asc ''original_text'') = Some (JStr original_text)
     \<and> map_of e (asc ''timestamp'') = Some (JStr now_iso)"
proof -
  from store_query_result_cases [OF assms(2)] obtain doc entries where
    c: "cache_data' = save_cache saved_iso
          (JObj (AList.update sport
             (JObj (AList.update k
                (make_entry query_type parameters result_data original_text now_iso) entries)) doc))"
    by blast
  have g: "get_query_result cache_data' sport k
             = Some (make_entry query_type parameters result_data original_text now_iso)"
    unfolding c get_query_result_save_cache [OF assms(1)] by (rule get_query_result_update)
  from make_entry_fields [of query_type parameters result_data original_text now_iso] g
  show ?thesis by auto
qed


theorem store_get_roundtrip_witness:
  "\<exists>e. get_query_result
          (snd (store_query_result scalar_str (asc ''2024-05-01T10:00:00'') (asc ''2024-05-01T10:00:01'')
                  (default_store (asc ''2024-05-01T09:00:00'')) (asc ''football'') (asc ''standings'')
                  [(asc ''league_id'', JInt 2021)] [(asc ''success'', JBool True)]
                  [0x82F1, 0x8D85, 0x79EF, 0x5206, 0x699C]))
          (asc ''football'') (asc ''standings_league_id_2021'') = Some (JObj e)
     \<and> map_of e (asc ''result_data'') = Some (JObj [(asc ''success'', JBool True)])
     \<and> map_of e (asc ''parameters'') = Some (JObj [(asc ''league_id'', JInt 2021)])
     \<and> map_of e (asc ''original_text'') = Some (JStr [0x82F1, 0x8D85, 0x79EF, 0x5206, 0x699C])
     \<and> map_of e (asc ''timestamp'') = Some (JStr (asc ''2024-05-01T10:00:00''))"
proof -
  let ?r = "store_query_result scalar_str (asc ''2024-05-01T10:00:00'') (asc ''2024-05-01T10:00:01'')
              (default_store (asc ''2024-05-01T09:00:00'')) (asc ''football'') (asc ''standings'')
              [(asc ''league_id'', JInt 2021)] [(asc ''success'', JBool True)]
              [0x82F1, 0x8D85, 0x79EF, 0x5206, 0x699C]"
  have f: "fst ?r = Some (asc ''standings_league_id_2021'')"
    by code_simp
  have h1: "asc ''football'' \<noteq> asc ''metadata''"
    by (simp add: asc_def)
  have h2: "?r = (Some (asc ''standings_league_id_2021''), snd ?r)"
    using f by (metis prod.collapse)
  from store_get_roundtrip [OF h1 h2] show ?thesis .
qed

subsection \<open>Storing under a new domain\<close>

lemma save_cache_obj:
  "\<exists>doc'. save_cache saved_iso (JObj doc) = JObj doc'
     \<and> (\<forall>d. d \<noteq> asc ''metadata'' \<longrightarrow> map_of doc' d = map_of doc d)
     \<and> map fst doc' = map fst doc"
proof (cases "\<exists>meta. map_of doc (asc ''metadata'') = Some (JObj meta)")
  case True
  then obtain meta where m: "map_of doc (asc ''metadata'') = Some (JObj meta)" by blast
  then have k: "asc ''metadata'' \<in> fst ` set doc"
    by (metis domI dom_map_of_conv_image_fst)
  from m have "save_cache saved_iso (JObj doc)
      = JObj (AList.update (asc ''metadata'')
               (JObj (AList.update (asc ''last_updated'') (JStr saved_iso) meta)) doc)"
    by (simp add: save_cache_def)
  moreover have "\<forall>d. d \<noteq> asc ''metadata'' \<longrightarrow>
      map_of (AList.update (asc ''metadata'')
               (JObj (AList.update (asc ''last_updated'') (JStr saved_iso) meta)) doc) d = map_of doc d"
    by (simp add: update_conv')
  moreover have "map fst (AList.update (asc ''metadata'')
               (JObj (AList.update (asc ''last_updated'') (JStr saved_iso) meta)) doc) = map fst doc"
    using k by (simp add: update_keys)
  ultimately show ?thesis by simp
next
  case False
  then have "save_cache saved_iso (JObj doc) = JObj doc"
    by (auto simp: save_cache_def split: option.splits json.splits)
  then show ?thesis by simp
qed

lemma domain_entries_save_cache:
  "sport \<noteq> asc ''metadata'' \<Longrightarrow>
   domain_entries (save_cache saved_iso (JObj doc)) sport = domain_entries (JObj doc) sport"
  using save_cache_obj [of saved_iso doc] by (auto simp: domain_entries_def)

lemma get_query_result_save_cache_key:
  assumes "sport \<noteq> asc ''metadata'' \<or> k \<noteq> asc ''last_updated''"
  shows "get_query_result (save_cache saved_iso cache_data) sport k
           = get_query_result cache_data sport k"
proof (cases "sport = asc ''metadata''")
  case False
  then show ?thesis by (rule get_query_result_save_cache)
next
  case True
  with assms have k: "k \<noteq> asc ''last_updated''" by simp
  show ?thesis
  proof (cases cache_data)
    case (JObj doc)
    show ?thesis
    proof (cases "map_of doc (asc ''metadata'')")
      case None
      with JObj show ?thesis by (simp add: save_cache_def)
    next
      case (Some v)
      show ?thesis
      proof (cases v)
        case (JObj meta)
        with Some \<open>cache_data = JObj doc\<close> True k show ?thesis
          by (simp add: save_cache_def get_query_result_def update_conv')
      qed (use Some \<open>cache_data = JObj doc\<close> in \<open>simp_all add: save_cache_def\<close>)
    qed
  qed (simp_all add: save_cache_def)
qed

text \<open>
  Claim C10, amended. For every domain string, also one that is none of the three
  configured domains and has no mapping in the store, \<open>store_query_result\<close> does not fail
  on a store that is a dictionary in which the value of the domain, if there is one, is a
  dictionary: it returns the computed key and the entry can be read back under it, unless
  the domain is \<open>metadata\<close> and the key is \<open>last_updated\<close>; for a domain other than
  \<open>metadata\<close> the entries of the domain afterwards are the previous ones (none if the
  domain was absent, the mapping being created) with the new entry under the key.
\<close>

theorem store_creates_namespace:
  assumes "sport \<noteq> asc ''metadata''
           \<or> generate_cache_key fmt query_type parameters \<noteq> asc ''last_updated''"
    and "\<forall>v. map_of doc sport = Some v \<longrightarrow> (\<exists>entries. v = JObj entries)"
  shows "\<exists>cache_data'.
      store_query_result fmt now_iso saved_iso (JObj doc) sport query_type parameters result_data
          original_text
        = (Some (generate_cache_key fmt query_type parameters), cache_data')
      \<and> get_query_result cache_data' sport (generate_cache_key fmt query_type parameters)
          = Some (make_entry query_type parameters result_data original_text now_iso)
      \<and> (sport \<noteq> asc ''metadata'' \<longrightarrow>
            domain_entries cache_data' sport
              = AList.update (generate_cache_key fmt query_type parameters)
                  (make_entry query_type parameters result_data original_text now_iso)
                  (domain_entries (JObj doc) sport))
      \<and> (sport \<noteq> asc ''metadata'' \<and> map_of doc sport = None \<longrightarrow>
            domain_entries cache_data' sport
              = [(generate_cache_key fmt query_type parameters,
                  make_entry query_type parameters result_data original_text now_iso)])"
proof -
  define k where "k = generate_cache_key fmt query_type parameters"
  define entry where "entry = make_entry query_type parameters result_data original_text now_iso"
  define doc1 where "doc1 = (if map_of doc sport = None then AList.update sport (JObj []) doc else doc)"
  define entries where "entries = domain_entries (JObj doc) sport"
  have d1: "map_of doc1 sport = Some (JObj entries)"
    using assms(2) by (auto simp: doc1_def entries_def domain_entries_def update_conv')
  define doc2 where "doc2 = AList.update sport (JObj (AList.update k entry entries)) doc1"
  have s: "store_query_result fmt now_iso saved_iso (JObj doc) sport query_type parameters
             result_data original_text = (Some k, save_cache saved_iso (JObj doc2))"
    using d1 unfolding store_query_result_def Let_def k_def entry_def doc1_def doc2_def
    by simp
  have e: "sport \<noteq> asc ''metadata'' \<longrightarrow>
           domain_entries (save_cache saved_iso (JObj doc2)) sport = AList.update k entry entries"
    by (simp add: domain_entries_save_cache) (simp add: doc2_def domain_entries_def update_conv')
  have n: "map_of doc sport = None \<longrightarrow> entries = []"
    by (simp add: entries_def domain_entries_def)
  from assms(1) have a: "sport \<noteq> asc ''metadata'' \<or> k \<noteq> asc ''last_updated''"
    by (simp add: k_def)
  have g: "get_query_result (save_cache saved_iso (JObj doc2)) sport k = Some entry"
    unfolding get_query_result_save_cache_key [OF a] doc2_def
    by (rule get_query_result_update)
  from s e n g show ?thesis
    unfolding k_def [symmetric] entry_def [symmetric] entries_def [symmetric] by auto
qed

theorem store_creates_namespace_witness:
  "\<exists>cache_data'.
      store_query_result scalar_str (asc ''2024-05-01T10:00:00'') (asc ''2024-05-01T10:00:01'')
          (default_store (asc ''2024-05-01T09:00:00'')) (asc ''tennis'') (asc ''schedule'')
          [(asc ''year'', JInt 2024)] [(asc ''success'', JBool True)] (asc ''tennis 2024'')
        = (Some (asc ''schedule_year_2024''), cache_data')
      \<and> domain_entries cache_data' (asc ''tennis'')
          = [(asc ''schedule_year_2024'',
              make_entry (asc ''schedule'') [(asc ''year'', JInt 2024)]
                [(asc ''success'', JBool True)] (asc ''tennis 2024'') (asc ''2024-05-01T10:00:00''))]
      \<and> get_query_result cache_data' (asc ''tennis'') (asc ''schedule_year_2024'')
          = Some (make_entry (asc ''schedule'') [(asc ''year'', JInt 2024)]
                [(asc ''success'', JBool True)] (asc ''tennis 2024'') (asc ''2024-05-01T10:00:00''))"
proof -
  let ?doc = "[(asc ''f1'', JObj []), (asc ''football'', JObj []), (asc ''nba'', JObj []),
               (asc ''metadata'',
                  JObj [(asc ''last_updated'', JStr (asc ''2024-05-01T09:00:00'')),
                        (asc ''version'', JStr (asc ''1.0''))])]"
  have d: "default_store (asc ''2024-05-01T09:00:00'') = JObj ?doc"
    by (simp add: default_store_def)
  have t: "asc ''tennis'' \<noteq> asc ''metadata''"
    by (simp add: asc_def)
  then have h1: "asc ''tennis'' \<noteq> asc ''metadata''
      \<or> generate_cache_key scalar_str (asc ''schedule'') [(asc ''year'', JInt 2024)]
           \<noteq> asc ''last_updated''"
    by (rule disjI1)
  have a: "map_of ?doc (asc ''tennis'') = None"
    by (simp add: asc_def)
  then have h2: "\<forall>v. map_of ?doc (asc ''tennis'') = Some v \<longrightarrow> (\<exists>entries. v = JObj entries)"
    by simp
  have k: "generate_cache_key scalar_str (asc ''schedule'') [(asc ''year'', JInt 2024)]
             = asc ''schedule_year_2024''"
    by code_simp
  from store_creates_namespace [OF h1 h2, of "asc ''2024-05-01T10:00:00''"
      "asc ''2024-05-01T10:00:01''" "[(asc ''success'', JBool True)]" "asc ''tennis 2024''"] a t
  show ?thesis unfolding d k by blast
qed

text \<open>
  Claim C10 as stated fails for the domain string \<open>metadata\<close>: with the query type
  \<open>last_updated\<close> and no parameters the key is \<open>last_updated\<close>, the call returns it, and
  \<open>_save_cache\<close> then writes its clock reading under that key of the same dictionary, so
  the entry is not in the store after the call.
\<close>

theorem store_metadata_key_counterexample:
  "fst (store_query_result scalar_str (asc ''2024-05-01T10:00:00'') (asc ''2024-05-01T10:00:01'')
          (default_store (asc ''2024-05-01T09:00:00'')) (asc ''metadata'') (asc ''last_updated'')
          [] [(asc ''success'', JBool True)] (asc ''x''))
     = Some (asc ''last_updated'')
   \<and> get_query_result
        (snd (store_query_result scalar_str (asc ''2024-05-01T10:00:00'')
                (asc ''2024-05-01T10:00:01'') (default_store (asc ''2024-05-01T09:00:00''))
                (asc ''metadata'') (asc ''last_updated'') [] [(asc ''success'', JBool True)]
                (asc ''x'')))
        (asc ''metadata'') (asc ''last_updated'')
     = Some (JStr (asc ''2024-05-01T10:00:01''))
   \<and> get_query_result
        (snd (store_query_result scalar_str (asc ''2024-05-01T10:00:00'')
                (asc ''2024-05-01T10:00:01'') (default_store (asc ''2024-05-01T09:00:00''))
                (asc ''metadata'') (asc ''last_updated'') [] [(asc ''success'', JBool True)]
                (asc ''x'')))
        (asc ''metadata'') (asc ''last_updated'')
     \<noteq> Some (make_entry (asc ''last_updated'') [] [(asc ''success'', JBool True)] (asc ''x'')
               (asc ''2024-05-01T10:00:00''))"
  by code_simp

subsection \<open>Clearing a domain\<close>

lemma clear_cache_domain:
  assumes "sport \<noteq> []" and "map_of doc sport \<noteq> None"
  shows "clear_cache reset_iso saved_iso (JObj doc) (Some sport)
           = save_cache saved_iso (JObj (AList.update sport (JObj []) doc))"
  using assms by (simp add: clear_cache_def)

text \<open>
  Claim C8. For every store that is a dictionary and every domain present in it (a
  non-empty top-level key other than \<open>metadata\<close>; an empty string means "no domain" to
  \<open>clear_cache\<close>), \<open>clear_cache\<close> with the domain sets the domain's mapping to empty, leaves
  the mapping of every other domain as it was and keeps the order of the keys; a second
  call right after it leaves the mapping of every domain as the first call left it. The
  two calls may read different clocks; only the \<open>metadata\<close> record depends on them.
\<close>

theorem clear_domain_framed_idempotent:
  assumes "sport \<noteq> []" and "sport \<noteq> asc ''metadata''" and "map_of doc sport \<noteq> None"
  shows "\<exists>doc1 doc2.
      clear_cache reset_iso saved_iso (JObj doc) (Some sport) = JObj doc1
      \<and> map_of doc1 sport = Some (JObj [])
      \<and> (\<forall>d. d \<noteq> sport \<and> d \<noteq> asc ''metadata'' \<longrightarrow> map_of doc1 d = map_of doc d)
      \<and> map fst doc1 = map fst doc
      \<and> clear_cache reset_iso' saved_iso' (JObj doc1) (Some sport) = JObj doc2
      \<and> (\<forall>d. d \<noteq> asc ''metadata'' \<longrightarrow> map_of doc2 d = map_of doc1 d)
      \<and> map fst doc2 = map fst doc1"
proof -
  from assms(3) have k: "sport \<in> fst ` set doc"
    by (metis domIff dom_map_of_conv_image_fst)
  define docA where "docA = AList.update sport (JObj []) doc"
  have kA: "map fst docA = map fst doc"
    using k by (simp add: docA_def update_keys)
  from save_cache_obj [of saved_iso docA] obtain doc1 where
    s1: "save_cache saved_iso (JObj docA) = JObj doc1"
    and f1: "\<forall>d. d \<noteq> asc ''metadata'' \<longrightarrow> map_of doc1 d = map_of docA d"
    and k1: "map fst doc1 = map fst docA"
    by blast
  have c1: "clear_cache reset_iso saved_iso (JObj doc) (Some sport) = JObj doc1"
    using clear_cache_domain [OF assms(1,3)] s1 by (simp add: docA_def)
  have m1: "map_of doc1 sport = Some (JObj [])"
    using f1 assms(2) by (simp add: docA_def update_conv')
  have o1: "\<forall>d. d \<noteq> sport \<and> d \<noteq> asc ''metadata'' \<longrightarrow> map_of doc1 d = map_of doc d"
    using f1 by (simp add: docA_def update_conv')
  define docB where "docB = AList.update sport (JObj []) doc1"
  from m1 have p1: "map_of doc1 sport \<noteq> None" by simp
  from m1 have kk: "sport \<in> fst ` set doc1"
    by (metis domI dom_map_of_conv_image_fst)
  have kB: "map fst docB = map fst doc1"
    using kk by (simp add: docB_def update_keys)
  have mB: "\<forall>d. map_of docB d = map_of doc1 d"
    using m1 by (simp add: docB_def update_conv')
  from save_cache_obj [of saved_iso' docB] obtain doc2 where
    s2: "save_cache saved_iso' (JObj docB) = JObj doc2"
    and f2: "\<forall>d. d \<noteq> asc ''metadata'' \<longrightarrow> map_of doc2 d = map_of docB d"
    and k2: "map fst doc2 = map fst docB"
    by blast
  have c2: "clear_cache reset_iso' saved_iso' (JObj doc1) (Some sport) = JObj doc2"
    using clear_cache_domain [OF assms(1) p1] s2 by (simp add: docB_def)
  have o2: "\<forall>d. d \<noteq> asc ''metadata'' \<longrightarrow> map_of doc2 d = map_of doc1 d"
    using f2 mB by simp
  from c1 m1 o1 kA k1 c2 o2 kB k2 show ?thesis by auto
qed

theorem clear_domain_framed_idempotent_witness:
  "\<exists>doc1 doc2.
      clear_cache (asc ''r'') (asc ''2024-05-02T08:00:00'')
        (JObj [(asc ''f1'', JObj [(asc ''standings'', JObj [(asc ''success'', JBool True)])]),
               (asc ''nba'', JObj [(asc ''schedule_team_Lakers'', JObj [])]),
               (asc ''metadata'', JObj [(asc ''last_updated'', JStr (asc ''2024-05-01T09:00:00''))])])
        (Some (asc ''f1'')) = JObj doc1
      \<and> map_of doc1 (asc ''f1'') = Some (JObj [])
      \<and> map_of doc1 (asc ''nba'') = Some (JObj [(asc ''schedule_team_Lakers'', JObj [])])
      \<and> clear_cache (asc ''r'') (asc ''2024-05-02T08:00:05'') (JObj doc1) (Some (asc ''f1''))
          = JObj doc2
      \<and> map_of doc2 (asc ''f1'') = Some (JObj [])
      \<and> map_of doc2 (asc ''nba'') = Some (JObj [(asc ''schedule_team_Lakers'', JObj [])])"
proof -
  let ?doc = "[(asc ''f1'', JObj [(asc ''standings'', JObj [(asc ''success'', JBool True)])]),
               (asc ''nba'', JObj [(asc ''schedule_team_Lakers'', JObj [])]),
               (asc ''metadata'', JObj [(asc ''last_updated'', JStr (asc ''2024-05-01T09:00:00''))])]"
  have h1: "asc ''f1'' \<noteq> []" and h2: "asc ''f1'' \<noteq> asc ''metadata''"
    by (simp_all add: asc_def)
  have h3: "map_of ?doc (asc ''f1'') \<noteq> None"
    by simp
  have n: "asc ''nba'' \<noteq> asc ''f1'' \<and> asc ''nba'' \<noteq> asc ''metadata''"
    by (simp add: asc_def)
  have m: "map_of ?doc (asc ''nba'') = Some (JObj [(asc ''schedule_team_Lakers'', JObj [])])"
    by (simp add: asc_def)
  from clear_domain_framed_idempotent [OF h1 h2 h3, of "asc ''r''" "asc ''2024-05-02T08:00:00''"
      "asc ''r''" "asc ''2024-05-02T08:00:05''"]
  obtain doc1 doc2 where
    c1: "clear_cache (asc ''r'') (asc ''2024-05-02T08:00:00'') (JObj ?doc) (Some (asc ''f1''))
           = JObj doc1"
    and m1: "map_of doc1 (asc ''f1'') = Some (JObj [])"
    and o1: "\<forall>d. d \<noteq> asc ''f1'' \<and> d \<noteq> asc ''metadata'' \<longrightarrow> map_of doc1 d = map_of ?doc d"
    and c2: "clear_cache (asc ''r'') (asc ''2024-05-02T08:00:05'') (JObj doc1) (Some (asc ''f1''))
           = JObj doc2"
    and o2: "\<forall>d. d \<noteq> asc ''metadata'' \<longrightarrow> map_of doc2 d = map_of doc1 d"
    by blast
  from o1 n m have n1: "map_of doc1 (asc ''nba'') = Some (JObj [(asc ''schedule_team_Lakers'', JObj [])])"
    by simp
  from o2 h2 m1 have f2: "map_of doc2 (asc ''f1'') = Some (JObj [])"
    by simp
  from o2 n n1 have n2: "map_of doc2 (asc ''nba'') = Some (JObj [(asc ''schedule_team_Lakers'', JObj [])])"
    by simp
  from c1 m1 n1 c2 f2 n2 show ?thesis by blast
qed

subsection \<open>Expiry at load time\<close>

lemma map_of_delete_keys:
  "map_of (delete_keys ks entries) k = (if k \<in> set ks then None else map_of entries k)"
proof -
  have "map_of (foldl (\<lambda>d key. AList.delete key d) entries ks) k
          = (if k \<in> set ks then None else map_of entries k)"
    by (induction ks arbitrary: entries) (auto simp: delete_conv')
  then show ?thesis by (simp add: delete_keys_def)
qed

lemma expired_keys_iff:
  assumes "distinct (map fst entries)" and "(k, v) \<in> set entries"
  shows "k \<in> set (expired_keys fromisoformat cutoff_time entries)
           \<longleftrightarrow> is_expired fromisoformat cutoff_time v"
proof
  assume "k \<in> set (expired_keys fromisoformat cutoff_time entries)"
  then obtain v' where "(k, v') \<in> set entries" "is_expired fromisoformat cutoff_time v'"
    by (auto simp: expired_keys_def)
  with assms show "is_expired fromisoformat cutoff_time v"
    by (metis eq_key_imp_eq_value)
next
  assume "is_expired fromisoformat cutoff_time v"
  with assms(2) show "k \<in> set (expired_keys fromisoformat cutoff_time entries)"
    by (force simp: expired_keys_def)
qed

lemma clean_sports_other:
  "sport \<notin> set ss \<Longrightarrow>
   map_of (clean_sports fromisoformat cutoff_time ss doc) sport = map_of doc sport"
proof (induction ss arbitrary: doc)
  case Nil
  then show ?case by simp
next
  case (Cons s ss)
  then have ne: "s \<noteq> sport" and ns: "sport \<notin> set ss" by auto
  show ?case
  proof (cases "map_of doc s")
    case None
    with Cons.IH [OF ns] show ?thesis by simp
  next
    case (Some v)
    show ?thesis
    proof (cases v)
      case (JObj m)
      with Some Cons.IH [OF ns] ne show ?thesis by (simp add: update_conv')
    qed (use Some in simp_all)
  qed
qed

lemma clean_sports_lookup:
  assumes "distinct ss"
    and "\<forall>s \<in> set ss. \<forall>v. map_of doc s = Some v \<longrightarrow> (\<exists>m. v = JObj m)"
    and "map_of doc sport = Some (JObj entries)"
  shows "map_of (clean_sports fromisoformat cutoff_time ss doc) sport =
           (if sport \<in> set ss
            then Some (JObj (delete_keys (expired_keys fromisoformat cutoff_time entries) entries))
            else Some (JObj entries))"
  using assms
proof (induction ss arbitrary: doc)
  case Nil
  then show ?case by simp
next
  case (Cons s ss)
  show ?case
  proof (cases "map_of doc s")
    case None
    with Cons.prems have ne: "s \<noteq> sport" by auto
    from None have "clean_sports fromisoformat cutoff_time (s # ss) doc
                      = clean_sports fromisoformat cutoff_time ss doc" by simp
    moreover from Cons.prems have "distinct ss"
      and "\<forall>s \<in> set ss. \<forall>v. map_of doc s = Some v \<longrightarrow> (\<exists>m. v = JObj m)" by simp_all
    ultimately show ?thesis using Cons.IH [of doc] Cons.prems(3) ne by simp
  next
    case (Some v)
    with Cons.prems(2) obtain m where v: "v = JObj m" by auto
    define doc' where "doc' = AList.update s
        (JObj (delete_keys (expired_keys fromisoformat cutoff_time m) m)) doc"
    have c: "clean_sports fromisoformat cutoff_time (s # ss) doc
               = clean_sports fromisoformat cutoff_time ss doc'"
      using Some v by (simp add: doc'_def)
    have o: "\<And>d. d \<noteq> s \<Longrightarrow> map_of doc' d = map_of doc d"
      by (simp add: doc'_def update_conv')
    from Cons.prems(1) have d: "distinct ss" and ns: "s \<notin> set ss" by simp_all
    have w: "\<forall>t \<in> set ss. \<forall>v. map_of doc' t = Some v \<longrightarrow> (\<exists>m. v = JObj m)"
      using Cons.prems(2) o ns by (metis list.set_intros(2))
    show ?thesis
    proof (cases "s = sport")
      case True
      with Some v Cons.prems(3) have me: "m = entries" by simp
      have l: "map_of doc' sport
                 = Some (JObj (delete_keys (expired_keys fromisoformat cutoff_time entries) entries))"
        using True me by (simp add: doc'_def update_conv')
      from clean_sports_other [of sport ss fromisoformat cutoff_time doc'] ns True l
      show ?thesis unfolding c by simp
    next
      case False
      then have l: "map_of doc' sport = Some (JObj entries)"
        using o [of sport] Cons.prems(3) by simp
      from Cons.IH [OF d w l] False show ?thesis unfolding c by auto
    qed
  qed
qed

lemma sports_distinct: "distinct sports"
  by (simp add: sports_def asc_def)

text \<open>
  Claim C3, amended. When the store is loaded from a document that is a dictionary in
  which the values of the three sports, where present, are dictionaries, then for each of
  the three sports and every entry of it: an entry whose \<open>timestamp\<close> is a string that
  parses to a naive time older than seven days is removed, and so is an entry whose
  \<open>timestamp\<close> is present but is not a string, does not parse, or parses to an aware time;
  an entry whose timestamp parses to a naive time not older than seven days is kept, and
  so is an entry without a \<open>timestamp\<close> key and an entry that is not a dictionary.
\<close>

theorem load_cleans_expired:
  assumes "sport \<in> set sports"
    and "\<forall>s \<in> set sports. \<forall>v. map_of doc s = Some v \<longrightarrow> (\<exists>m. v = JObj m)"
    and "map_of doc sport = Some (JObj entries)"
    and "distinct (map fst entries)"
    and "(k, v) \<in> set entries"
  shows "get_query_result (load_cache fromisoformat now now_iso (Parsed (JObj doc))) sport k =
     (case v of
        JObj e \<Rightarrow>
          (case map_of e (asc ''timestamp'') of
             None \<Rightarrow> Some v
           | Some (JStr s) \<Rightarrow>
               (case fromisoformat s of
                  Some (Naive item_time) \<Rightarrow>
                    (if now - item_time > timedelta_days 7 then None else Some v)
                | _ \<Rightarrow> None)
           | Some _ \<Rightarrow> None)
      | _ \<Rightarrow> Some v)"
proof -
  define cutoff_time where "cutoff_time = now - timedelta_days 7"
  have l: "load_cache fromisoformat now now_iso (Parsed (JObj doc))
             = JObj (clean_sports fromisoformat cutoff_time sports doc)"
    by (simp add: load_cache_def clean_expired_data_def Let_def cutoff_time_def)
  have m: "map_of (clean_sports fromisoformat cutoff_time sports doc) sport
             = Some (JObj (delete_keys (expired_keys fromisoformat cutoff_time entries) entries))"
    using clean_sports_lookup [OF sports_distinct assms(2,3)] assms(1) by simp
  have mv: "map_of entries k = Some v"
    using assms(4,5) by simp
  have g: "get_query_result (load_cache fromisoformat now now_iso (Parsed (JObj doc))) sport k
             = (if is_expired fromisoformat cutoff_time v then None else Some v)"
    unfolding l using m mv expired_keys_iff [OF assms(4,5), of fromisoformat cutoff_time]
    by (simp add: get_query_result_def map_of_delete_keys)
  have e: "(if is_expired fromisoformat cutoff_time v then None else Some v) =
     (case v of
        JObj e \<Rightarrow>
          (case map_of e (asc ''timestamp'') of
             None \<Rightarrow> Some v
           | Some (JStr s) \<Rightarrow>
               (case fromisoformat s of
                  Some (Naive item_time) \<Rightarrow>
                    (if now - item_time > timedelta_days 7 then None else Some v)
                | _ \<Rightarrow> None)
           | Some _ \<Rightarrow> None)
      | _ \<Rightarrow> Some v)"
    by (auto simp: is_expired_def cutoff_time_def split: json.splits option.splits pydatetime.splits)
  from g e show ?thesis by simp
qed

theorem load_cleans_expired_witness:
  "get_query_result
     (load_cache
        (\<lambda>s. if s = asc ''2024-01-01T00:00:00'' then Some (Naive 0)
             else if s = asc ''2024-01-02T00:00:00'' then Some (Naive 86400000000) else None)
        691200000000 (asc ''2024-01-09T00:00:00'')
        (Parsed (JObj [(asc ''f1'',
           JObj [(asc ''old'', JObj [(asc ''timestamp'', JStr (asc ''2024-01-01T00:00:00''))]),
                 (asc ''fresh'', JObj [(asc ''timestamp'', JStr (asc ''2024-01-02T00:00:00''))]),
                 (asc ''bad'', JObj [(asc ''timestamp'', JStr (asc ''yesterday''))])])])))
     (asc ''f1'') (asc ''old'') = None
   \<and> get_query_result
     (load_cache
        (\<lambda>s. if s = asc ''2024-01-01T00:00:00'' then Some (Naive 0)
             else if s = asc ''2024-01-02T00:00:00'' then Some (Naive 86400000000) else None)
        691200000000 (asc ''2024-01-09T00:00:00'')
        (Parsed (JObj [(asc ''f1'',
           JObj [(asc ''old'', JObj [(asc ''timestamp'', JStr (asc ''2024-01-01T00:00:00''))]),
                 (asc ''fresh'', JObj [(asc ''timestamp'', JStr (asc ''2024-01-02T00:00:00''))]),
                 (asc ''bad'', JObj [(asc ''timestamp'', JStr (asc ''yesterday''))])])])))
     (asc ''f1'') (asc ''fresh'')
       = Some (JObj [(asc ''timestamp'', JStr (asc ''2024-01-02T00:00:00''))])"
proof -
  let ?f = "\<lambda>s. if s = asc ''2024-01-01T00:00:00'' then Some (Naive 0)
             else if s = asc ''2024-01-02T00:00:00'' then Some (Naive 86400000000) else None"
  let ?old = "JObj [(asc ''timestamp'', JStr (asc ''2024-01-01T00:00:00''))]"
  let ?fresh = "JObj [(asc ''timestamp'', JStr (asc ''2024-01-02T00:00:00''))]"
  let ?entries = "[(asc ''old'', ?old), (asc ''fresh'', ?fresh),
                   (asc ''bad'', JObj [(asc ''timestamp'', JStr (asc ''yesterday''))])]"
  let ?doc = "[(asc ''f1'', JObj ?entries)]"
  have h1: "asc ''f1'' \<in> set sports"
    by (simp add: sports_def)
  have h2: "\<forall>s \<in> set sports. \<forall>v. map_of ?doc s = Some v \<longrightarrow> (\<exists>m. v = JObj m)"
    by (simp add: sports_def asc_def)
  have h3: "map_of ?doc (asc ''f1'') = Some (JObj ?entries)"
    by simp
  have h4: "distinct (map fst ?entries)"
    by (simp add: asc_def)
  have h5: "(asc ''old'', ?old) \<in> set ?entries" and h6: "(asc ''fresh'', ?fresh) \<in> set ?entries"
    by simp_all
  have a: "asc ''2024-01-02T00:00:00'' \<noteq> asc ''2024-01-01T00:00:00''"
    by (simp add: asc_def)
  from load_cleans_expired [OF h1 h2 h3 h4 h5, of ?f 691200000000 "asc ''2024-01-09T00:00:00''"]
  have o: "get_query_result
             (load_cache ?f 691200000000 (asc ''2024-01-09T00:00:00'') (Parsed (JObj ?doc)))
             (asc ''f1'') (asc ''old'') = None"
    by (simp add: timedelta_days_def)
  from load_cleans_expired [OF h1 h2 h3 h4 h6, of ?f 691200000000 "asc ''2024-01-09T00:00:00''"] a
  have f: "get_query_result
             (load_cache ?f 691200000000 (asc ''2024-01-09T00:00:00'') (Parsed (JObj ?doc)))
             (asc ''f1'') (asc ''fresh'') = Some ?fresh"
    by (simp add: timedelta_days_def)
  from o f show ?thesis by (rule conjI)
qed

text \<open>
  Claim C3 as stated fails for a missing timestamp: the entry below has no \<open>timestamp\<close>
  key and is still in the store after the load (the guard \<open>'timestamp' in value\<close> of
  \<open>_clean_expired_data\<close> skips it).
\<close>

theorem load_keeps_missing_timestamp_counterexample:
  "map_of [(asc ''query_type'', JStr (asc ''standings'')), (asc ''success'', JBool True)]
       (asc ''timestamp'') = None
   \<and> get_query_result
        (load_cache (\<lambda>s. None) 0 (asc ''now'')
           (Parsed (JObj [(asc ''f1'',
              JObj [(asc ''standings'',
                     JObj [(asc ''query_type'', JStr (asc ''standings'')),
                           (asc ''success'', JBool True)])])])))
        (asc ''f1'') (asc ''standings'')
     = Some (JObj [(asc ''query_type'', JStr (asc ''standings'')), (asc ''success'', JBool True)])"
  by code_simp

subsection \<open>Listing the options\<close>

lemma entry_options_origin:
  assumes "entry_options fmt this_year sport query_type k e = Some found" and "x \<in> set found"
  shows "opt_cache_key x = k
     \<and> (\<exists>d. e = JObj d \<and> map_of d (asc ''query_type'') = Some (JStr query_type)
            \<and> truthy (dict_get d (asc ''success''))
            \<and> opt_timestamp x = dict_get d (asc ''timestamp''))"
proof (cases e)
  case (JObj d)
  show ?thesis
  proof (cases "map_of d (asc ''query_type'') = Some (JStr query_type)
                \<and> truthy (dict_get d (asc ''success''))")
    case False
    with assms JObj show ?thesis by (auto simp: entry_options_def)
  next
    case True
    have "opt_cache_key x = k \<and> opt_timestamp x = dict_get d (asc ''timestamp'')"
      using assms JObj True
      by (auto simp: entry_options_def Let_def split: if_splits json.splits option.splits)
    with True JObj show ?thesis by blast
  qed
qed (use assms in \<open>simp_all add: entry_options_def\<close>)

lemma entry_options_skip:
  "\<not> (map_of d (asc ''query_type'') = Some (JStr query_type) \<and> truthy (dict_get d (asc ''success'')))
   \<Longrightarrow> entry_options fmt this_year sport query_type k (JObj d) = Some []"
  by (auto simp: entry_options_def)

lemma collect_options_origin:
  "collect_options body entries = Some options \<Longrightarrow> x \<in> set options \<Longrightarrow>
   \<exists>k e found. (k, e) \<in> set entries \<and> body k e = Some found \<and> x \<in> set found"
proof (induction entries arbitrary: options)
  case Nil
  then show ?case by simp
next
  case (Cons ke entries)
  obtain k e where ke: "ke = (k, e)" by (cases ke)
  from Cons.prems(1) ke obtain found others where
    f: "body k e = Some found" and o: "collect_options body entries = Some others"
    and r: "options = found @ others"
    by (auto split: option.splits)
  from Cons.prems(2) r have "x \<in> set found \<or> x \<in> set others" by simp
  then show ?case
  proof
    assume "x \<in> set found"
    with f ke show ?thesis by auto
  next
    assume "x \<in> set others"
    from Cons.IH [OF o this] show ?thesis by auto
  qed
qed

lemma sort_desc_sorted:
  "sorted_wrt (\<lambda>a b. f b \<le> f a) (rev (sort_key f xs))"
proof -
  have "sorted (map f (sort_key f xs))" by (rule sorted_sort_key)
  then have "sorted_wrt (\<lambda>a b. f a \<le> f b) (sort_key f xs)" by (simp add: sorted_map)
  then show ?thesis by (simp add: sorted_wrt_rev)
qed

lemma sort_desc_stable:
  "filter (\<lambda>x. f x = t) (rev (sort_key f (rev xs))) = filter (\<lambda>x. f x = t) xs"
proof -
  have "filter (\<lambda>x. f x = t) (rev (sort_key f (rev xs)))
          = rev (filter (\<lambda>x. f x = t) (sort_key f (rev xs)))"
    by (simp only: rev_filter)
  also have "\<dots> = rev (filter (\<lambda>x. f x = t) (rev xs))"
    by (simp only: sort_key_stable)
  also have "\<dots> = filter (\<lambda>x. f x = t) xs"
    by (simp only: rev_filter rev_rev_ident)
  finally show ?thesis .
qed

text \<open>
  Claim C6. For every domain and query type, every option that \<open>get_available_options\<close>
  returns comes from an entry of the domain whose \<open>query_type\<close> is the requested one and
  whose \<open>success\<close> value is true in a condition, and carries that entry's key and
  timestamp; an entry with another \<open>query_type\<close> or a false \<open>success\<close> appends no option;
  the returned list is in descending order of the timestamps, and the options of equal
  timestamp are in the order of the entries, which is the order before sorting. The
  timestamps of the matching entries are strings, as \<open>store_query_result\<close> writes them.
\<close>

theorem options_filtered_and_sorted:
  assumes "\<forall>(k, e) \<in> set (domain_entries cache_data sport). \<forall>d.
             e = JObj d \<and> map_of d (asc ''query_type'') = Some (JStr query_type)
               \<and> truthy (dict_get d (asc ''success''))
             \<longrightarrow> is_string (dict_get d (asc ''timestamp''))"
  shows "(\<forall>x \<in> set (get_available_options fmt sort_other this_year cache_data sport query_type).
            \<exists>d. (opt_cache_key x, JObj d) \<in> set (domain_entries cache_data sport)
               \<and> map_of d (asc ''query_type'') = Some (JStr query_type)
               \<and> truthy (dict_get d (asc ''success''))
               \<and> opt_timestamp x = dict_get d (asc ''timestamp''))
     \<and> (\<forall>k d. \<not> (map_of d (asc ''query_type'') = Some (JStr query_type)
                     \<and> truthy (dict_get d (asc ''success'')))
            \<longrightarrow> entry_options fmt this_year sport query_type k (JObj d) = Some [])
     \<and> sorted_wrt (\<lambda>a b. stamp_key b \<le> stamp_key a)
           (get_available_options fmt sort_other this_year cache_data sport query_type)
     \<and> (case unsorted_options fmt this_year cache_data sport query_type of
           None \<Rightarrow> get_available_options fmt sort_other this_year cache_data sport query_type = []
         | Some options \<Rightarrow>
             (\<forall>t. filter (\<lambda>x. stamp_key x = t)
                    (get_available_options fmt sort_other this_year cache_data sport query_type)
                  = filter (\<lambda>x. stamp_key x = t) options))"
proof (cases "unsorted_options fmt this_year cache_data sport query_type")
  case None
  then have "get_available_options fmt sort_other this_year cache_data sport query_type = []"
    by (simp add: get_available_options_def)
  with None show ?thesis by (simp add: entry_options_skip)
next
  case (Some options)
  have origin: "\<exists>d. (opt_cache_key x, JObj d) \<in> set (domain_entries cache_data sport)
               \<and> map_of d (asc ''query_type'') = Some (JStr query_type)
               \<and> truthy (dict_get d (asc ''success''))
               \<and> opt_timestamp x = dict_get d (asc ''timestamp'')"
    if x: "x \<in> set options" for x
  proof -
    from Some x have c: "collect_options (entry_options fmt this_year sport query_type)
                           (domain_entries cache_data sport) = Some options"
      by (auto simp: unsorted_options_def domain_entries_def split: json.splits option.splits)
    from collect_options_origin [OF c x] obtain k e found where
      m: "(k, e) \<in> set (domain_entries cache_data sport)"
      and f: "entry_options fmt this_year sport query_type k e = Some found" and i: "x \<in> set found"
      by blast
    from entry_options_origin [OF f i] m show ?thesis by blast
  qed
  have strings: "list_all (\<lambda>x. is_string (opt_timestamp x)) options"
    unfolding list_all_iff
  proof
    fix x assume "x \<in> set options"
    from origin [OF this] assms show "is_string (opt_timestamp x)" by fastforce
  qed
  have r: "get_available_options fmt sort_other this_year cache_data sport query_type
             = rev (sort_key stamp_key (rev options))"
    using Some strings by (simp add: get_available_options_def sort_options_def)
  have "\<forall>x \<in> set (rev (sort_key stamp_key (rev options))).
            \<exists>d. (opt_cache_key x, JObj d) \<in> set (domain_entries cache_data sport)
               \<and> map_of d (asc ''query_type'') = Some (JStr query_type)
               \<and> truthy (dict_get d (asc ''success''))
               \<and> opt_timestamp x = dict_get d (asc ''timestamp'')"
    using origin by simp
  moreover have "sorted_wrt (\<lambda>a b. stamp_key b \<le> stamp_key a)
                   (rev (sort_key stamp_key (rev options)))"
    by (rule sort_desc_sorted)
  moreover have "\<forall>t. filter (\<lambda>x. stamp_key x = t) (rev (sort_key stamp_key (rev options)))
                  = filter (\<lambda>x. stamp_key x = t) options"
    by (simp only: sort_desc_stable) simp
  ultimately show ?thesis
    unfolding r Some by (simp add: entry_options_skip)
qed

theorem options_filtered_and_sorted_witness:
  "sorted_wrt (\<lambda>a b. stamp_key b \<le> stamp_key a)
     (get_available_options scalar_str (\<lambda>options. None) 2024 demo_store
        (asc ''football'') (asc ''standings''))
   \<and> map opt_value
       (get_available_options scalar_str (\<lambda>options. None) 2024 demo_store
          (asc ''football'') (asc ''standings''))
     = [JInt 2021, JInt 2014, JInt 2002]"
proof -
  have h: "\<forall>(k, e) \<in> set (domain_entries demo_store (asc ''football'')). \<forall>d.
             e = JObj d \<and> map_of d (asc ''query_type'') = Some (JStr (asc ''standings''))
               \<and> truthy (dict_get d (asc ''success''))
             \<longrightarrow> is_string (dict_get d (asc ''timestamp''))"
    by (simp add: demo_store_def domain_entries_def dict_get_def is_string_def asc_def)
  have v: "map opt_value
       (get_available_options scalar_str (\<lambda>options. None) 2024 demo_store
          (asc ''football'') (asc ''standings''))
     = [JInt 2021, JInt 2014, JInt 2002]"
    by code_simp
  from options_filtered_and_sorted [OF h, of scalar_str "\<lambda>options. None" 2024] v
  show ?thesis by blast
qed

end
